theory Spec2Isabelle
  imports Complex_Main "HOL-Library.Sublist"
begin

section \<open>JavaScript values\<close>

text \<open>
  Values of TypeScript type \<open>any\<close>: what \<open>JSON.parse\<close> and \<open>response.json()\<close> can
  produce, plus \<open>undefined\<close> (the value of a missing property). JSON numbers are finite,
  so a number is modelled as a real; the code below only copies and compares them.
  An object is the list of its key/value pairs; a property read takes the first pair
  with that key.
\<close>

datatype jsval =
    JUndefined
  | JNull
  | JBool bool
  | JNum real
  | JStr string
  | JArr "jsval list"
  | JObj "(string \<times> jsval) list"

text \<open>JavaScript truthiness, as used by \<open>||\<close>, \<open>&&\<close> and \<open>if\<close>.\<close>

fun truthy :: "jsval \<Rightarrow> bool" where
  "truthy JUndefined = False"
| "truthy JNull = False"
| "truthy (JBool b) = b"
| "truthy (JNum n) = (n \<noteq> 0)"
| "truthy (JStr s) = (s \<noteq> [])"
| "truthy (JArr _) = True"
| "truthy (JObj _) = True"

text \<open>\<open>a || b\<close>: the left operand if it is truthy, the right one otherwise.\<close>

definition js_or :: "jsval \<Rightarrow> jsval \<Rightarrow> jsval" where
  "js_or a b = (if truthy a then a else b)"

text \<open>
  \<open>r?.k\<close> on an optional record \<open>r\<close> of type \<open>Record<string, any>\<close>: \<open>undefined\<close> when
  the record or the key is absent.
\<close>

definition opt_field :: "(string \<rightharpoonup> jsval) option \<Rightarrow> string \<Rightarrow> jsval" where
  "opt_field r k =
     (case r of None \<Rightarrow> JUndefined
      | Some m \<Rightarrow> (case m k of None \<Rightarrow> JUndefined | Some v \<Rightarrow> v))"

section \<open>The dashboard's script state and its update handler\<close>

text \<open>
  \<open>ProcessingDashboard.tsx\<close>, interfaces \<open>ProcessingUpdate\<close> and
  \<open>ScriptProcessingState\<close>. The status strings are one datatype (the update's interface
  lists the first three, the state's all four). The fields of the update carry the prefix
  \<open>u_\<close>, since both interfaces use the same field names. \<open>script_name\<close> and
  \<open>student_name\<close> are declared \<open>string\<close> but are assigned from \<open>details\<close>, whose values
  are \<open>any\<close>.
\<close>

datatype script_status = Processing | Completed | Failed | Pending

record ProcessingUpdate =
  u_script_id :: string
  u_status :: script_status
  u_stage :: string
  u_progress :: real
  u_stage_description :: string
  u_estimated_remaining_time :: real
  u_details :: "(string \<rightharpoonup> jsval) option"
  u_result :: "(string \<rightharpoonup> jsval) option"
  u_error :: "string option"
  u_timestamp :: real

record ScriptProcessingState =
  script_id :: string
  script_name :: jsval
  student_name :: jsval
  current_stage :: string
  progress :: real
  status :: script_status
  stage_description :: string
  estimated_remaining_time :: real
  details :: "string \<rightharpoonup> jsval"
  result :: "(string \<rightharpoonup> jsval) option"
  error :: "string option"
  started_at :: real
  completed_at :: "real option"

text \<open>
  The object literal \<open>updatedState\<close> of \<open>updateScriptProcessing\<close>; \<open>existing\<close> is
  \<open>newMap.get(update.script_id)\<close>. A number is falsy exactly when it is 0, so
  \<open>existing?.started_at || update.timestamp\<close> keeps a stored non-zero start time.
\<close>

definition updatedState ::
  "ProcessingUpdate \<Rightarrow> ScriptProcessingState option \<Rightarrow> ScriptProcessingState" where
  "updatedState update existing =
     \<lparr> script_id = u_script_id update,
       script_name =
         js_or (opt_field (u_details update) ''script_name'')
           (js_or (case existing of None \<Rightarrow> JUndefined | Some e \<Rightarrow> script_name e)
              (JStr ''Unknown'')),
       student_name =
         js_or (opt_field (u_details update) ''student_name'')
           (js_or (case existing of None \<Rightarrow> JUndefined | Some e \<Rightarrow> student_name e)
              (JStr ''Unknown'')),
       current_stage = u_stage update,
       progress = u_progress update,
       status = u_status update,
       stage_description = u_stage_description update,
       estimated_remaining_time = u_estimated_remaining_time update,
       details =
         (case existing of None \<Rightarrow> Map.empty | Some e \<Rightarrow> details e) ++
         (case u_details update of None \<Rightarrow> Map.empty | Some d \<Rightarrow> d),
       result = u_result update,
       error = u_error update,
       started_at =
         (case existing of
            None \<Rightarrow> u_timestamp update
          | Some e \<Rightarrow> if started_at e \<noteq> 0 then started_at e else u_timestamp update),
       completed_at =
         (if u_status update = Completed then Some (u_timestamp update)
          else (case existing of None \<Rightarrow> None | Some e \<Rightarrow> completed_at e)) \<rparr>"

text \<open>
  The state updater passed to \<open>setProcessingScripts\<close>: it copies the map, builds the new
  state of the update's script and stores it under the update's script id. There is no
  other statement between reading \<open>existing\<close> and \<open>newMap.set\<close>.
\<close>

definition updateScriptProcessing ::
  "ProcessingUpdate \<Rightarrow> (string \<rightharpoonup> ScriptProcessingState) \<Rightarrow>
     (string \<rightharpoonup> ScriptProcessingState)" where
  "updateScriptProcessing update prev =
     (let newMap = prev;
          existing = newMap (u_script_id update)
      in newMap(u_script_id update \<mapsto> updatedState update existing))"

text \<open>
  The completion callback of the same updater: \<open>onProcessingComplete(update.result)\<close> runs
  when the update's status is \<open>completed\<close>, the prop is given and the update has a result.
\<close>

definition completion_call ::
  "bool \<Rightarrow> ProcessingUpdate \<Rightarrow> (string \<rightharpoonup> jsval) option" where
  "completion_call onProcessingComplete update =
     (if u_status update = Completed \<and> onProcessingComplete then u_result update else None)"

text \<open>The canonical triple of a stored script: stage, status and progress.\<close>

definition canonical :: "ScriptProcessingState \<Rightarrow> string \<times> script_status \<times> real" where
  "canonical s = (current_stage s, status s, progress s)"

text \<open>The same triple as an update carries it.\<close>

definition u_canonical :: "ProcessingUpdate \<Rightarrow> string \<times> script_status \<times> real" where
  "u_canonical u = (u_stage u, u_status u, u_progress u)"

section \<open>The dashboard component and its connection\<close>

text \<open>
  The component instance of \<open>ProcessingDashboard\<close> together with the part of the browser
  it talks to: the WebSocket objects it has created and the timers it has set.

  \<open>connectWebSocket\<close> is a \<open>useCallback\<close> on \<open>[sessionId]\<close>: React makes a new function
  when the \<open>sessionId\<close> prop changes and keeps the old one otherwise. The function, the
  four handlers it gives a socket and the \<open>connectWebSocket\<close> it passes to \<open>setTimeout\<close>
  all close over the render in which it was made. What they read of that render are
  the two props: \<open>sessionId\<close> (in \<open>onopen\<close>) and \<open>onProcessingComplete\<close> (through
  \<open>handleWebSocketMessage\<close> and \<open>updateScriptProcessing\<close>).
\<close>

record closure =
  c_sessionId :: "string option"
  c_onProcessingComplete :: bool

datatype ready_state = CONNECTING | OPEN | CLOSING | CLOSED

text \<open>The two messages the component sends: \<open>{type: 'subscribe_session', session_id}\<close>
  and \<open>{type: 'subscribe_script', script_id}\<close>.\<close>

datatype client_message = subscribe_session string | subscribe_script string

text \<open>
  A WebSocket object: its \<open>readyState\<close>, the messages transmitted on it so far, and the
  closure of the handlers that \<open>connectWebSocket\<close> has given it.
\<close>

record socket =
  readyState :: ready_state
  sent :: "client_message list"
  handlers :: closure

text \<open>
  A parsed incoming message, by its \<open>type\<close> field as \<open>handleWebSocketMessage\<close>
  distinguishes it; the payload of a \<open>script_update\<close> is read as a \<open>ProcessingUpdate\<close>.
\<close>

datatype server_message =
    script_update ProcessingUpdate
  | session_update
  | connection_established
  | other_type

datatype phase = Created | Alive | Destroyed

text \<open>
  \<open>sessionId\<close> and \<open>onProcessingComplete\<close> are the current props (\<open>onProcessingComplete\<close>:
  whether the prop is given). \<open>sockets\<close> lists every WebSocket the instance has
  constructed, in order of creation; a socket is named by its index. \<open>timers\<close> holds, for
  each pending \<open>setTimeout(connectWebSocket, _)\<close>, the delay in milliseconds and the
  closure of the \<open>connectWebSocket\<close> that will run. \<open>completions\<close> records the arguments of
  the calls of \<open>onProcessingComplete\<close>. \<open>effect_websocket\<close> is the value of the state
  variable \<open>websocket\<close> in the render whose effect is installed: the cleanup function
  returned by the effect closes over that render's \<open>websocket\<close>, not over the current one.
\<close>

record dashboard =
  sessionId :: "string option"
  onProcessingComplete :: bool
  processingScripts :: "string \<rightharpoonup> ScriptProcessingState"
  isConnected :: bool
  connectionError :: "string option"
  websocket :: "nat option"
  phase :: phase
  effect_websocket :: "nat option"
  sockets :: "socket list"
  timers :: "(nat \<times> closure) list"
  completions :: "(string \<rightharpoonup> jsval) list"

text \<open>The instance before it is mounted: its props and the \<open>useState\<close> initial values.\<close>

definition init :: "string option \<Rightarrow> bool \<Rightarrow> dashboard" where
  "init sid cb =
     \<lparr> sessionId = sid, onProcessingComplete = cb,
       processingScripts = Map.empty, isConnected = False, connectionError = None,
       websocket = None, phase = Created, effect_websocket = None,
       sockets = [], timers = [], completions = [] \<rparr>"

text \<open>
  A state setter of React (\<open>setIsConnected\<close>, \<open>setWebsocket\<close>, ...): it changes the state
  of a mounted instance; the state of an instance that has been unmounted stays as it is.
\<close>

definition react_set :: "(dashboard \<Rightarrow> dashboard) \<Rightarrow> dashboard \<Rightarrow> dashboard" where
  "react_set f d = (if phase d = Alive then f d else d)"

text \<open>
  \<open>ws.send(msg)\<close>: the message is transmitted on an open socket. On a socket that is still
  connecting \<open>send\<close> throws, and on a closing or closed one the data is discarded; either
  way nothing is transmitted, and \<open>send\<close> is the last statement of each of its callers.
\<close>

definition ws_send :: "nat \<Rightarrow> client_message \<Rightarrow> dashboard \<Rightarrow> dashboard" where
  "ws_send ws msg d =
     (if ws < length (sockets d) \<and> readyState (sockets d ! ws) = OPEN
      then d\<lparr>sockets := (sockets d)[ws := (sockets d ! ws)\<lparr>sent := sent (sockets d ! ws) @ [msg]\<rparr>]\<rparr>
      else d)"

text \<open>\<open>ws.close()\<close>: a connecting or open socket starts closing; otherwise nothing happens.\<close>

definition ws_close :: "nat \<Rightarrow> dashboard \<Rightarrow> dashboard" where
  "ws_close ws d =
     (if ws < length (sockets d) \<and> readyState (sockets d ! ws) \<in> {CONNECTING, OPEN}
      then d\<lparr>sockets := (sockets d)[ws := (sockets d ! ws)\<lparr>readyState := CLOSING\<rparr>]\<rparr>
      else d)"

text \<open>The browser moves socket \<open>ws\<close> to a new \<open>readyState\<close> before it fires an event.\<close>

definition set_readyState :: "nat \<Rightarrow> ready_state \<Rightarrow> dashboard \<Rightarrow> dashboard" where
  "set_readyState ws r d = d\<lparr>sockets := (sockets d)[ws := (sockets d ! ws)\<lparr>readyState := r\<rparr>]\<rparr>"

text \<open>
  \<open>connectWebSocket\<close>, as the function of closure \<open>c\<close>. The flag says whether
  \<open>new WebSocket(wsUrl)\<close> throws; then the \<open>catch\<close> branch sets the connection error and
  nothing else happens. Otherwise the new socket gets its four handlers (the functions
  \<open>on_open\<close>, \<open>on_message\<close>, \<open>on_close\<close> and \<open>on_error\<close> below, of the same closure) and is
  stored with \<open>setWebsocket\<close>.
\<close>

definition connectWebSocket :: "closure \<Rightarrow> bool \<Rightarrow> dashboard \<Rightarrow> dashboard" where
  "connectWebSocket c ctor_throws d =
     (if ctor_throws
      then react_set
             (\<lambda>d. d\<lparr>connectionError := Some ''Failed to establish WebSocket connection''\<rparr>) d
      else
        let ws = length (sockets d);
            d1 = d\<lparr>sockets := sockets d @ [\<lparr>readyState = CONNECTING, sent = [], handlers = c\<rparr>]\<rparr>
        in react_set (\<lambda>d. d\<lparr>websocket := Some ws\<rparr>) d1)"

text \<open>\<open>ws.onopen\<close>; \<open>if (sessionId)\<close> holds for a non-empty string.\<close>

definition on_open :: "closure \<Rightarrow> nat \<Rightarrow> dashboard \<Rightarrow> dashboard" where
  "on_open c ws d =
     (let d1 = react_set (\<lambda>d. d\<lparr>isConnected := True\<rparr>) d;
          d2 = react_set (\<lambda>d. d\<lparr>connectionError := None\<rparr>) d1
      in case c_sessionId c of
           None \<Rightarrow> d2
         | Some sid \<Rightarrow> if sid \<noteq> [] then ws_send ws (subscribe_session sid) d2 else d2)"

text \<open>
  \<open>handleWebSocketMessage\<close>, with \<open>updateScriptProcessing\<close> as the state updater of
  \<open>setProcessingScripts\<close> and the completion callback called inside that updater. React
  runs the updater, and so the callback, also for an instance that has been unmounted;
  only the stored state of such an instance stays as it is. The other message types are
  only logged.
\<close>

definition handleWebSocketMessage :: "closure \<Rightarrow> server_message \<Rightarrow> dashboard \<Rightarrow> dashboard" where
  "handleWebSocketMessage c data d =
     (case data of
        script_update update \<Rightarrow>
          let d1 = react_set
                     (\<lambda>d. d\<lparr>processingScripts :=
                              updateScriptProcessing update (processingScripts d)\<rparr>) d
          in d1\<lparr>completions :=
                  (case completion_call (c_onProcessingComplete c) update of
                     None \<Rightarrow> completions d1
                   | Some r \<Rightarrow> completions d1 @ [r])\<rparr>
      | _ \<Rightarrow> d)"

text \<open>
  \<open>ws.onmessage\<close>: \<open>None\<close> is event data on which \<open>JSON.parse\<close> (or reading \<open>data.type\<close>)
  throws; the \<open>catch\<close> only logs.
\<close>

definition on_message :: "closure \<Rightarrow> server_message option \<Rightarrow> dashboard \<Rightarrow> dashboard" where
  "on_message c data d =
     (case data of None \<Rightarrow> d | Some m \<Rightarrow> handleWebSocketMessage c m d)"

text \<open>
  \<open>ws.onclose\<close>: \<open>setIsConnected(false)\<close>, then \<open>setTimeout(connectWebSocket, 3000)\<close> with
  the \<open>connectWebSocket\<close> of the handler's own closure. The timer is set whatever the
  phase of the instance.
\<close>

definition on_close :: "closure \<Rightarrow> dashboard \<Rightarrow> dashboard" where
  "on_close c d =
     (let d1 = react_set (\<lambda>d. d\<lparr>isConnected := False\<rparr>) d
      in d1\<lparr>timers := timers d1 @ [(3000, c)]\<rparr>)"

text \<open>\<open>ws.onerror\<close>.\<close>

definition on_error :: "dashboard \<Rightarrow> dashboard" where
  "on_error d = react_set (\<lambda>d. d\<lparr>connectionError := Some ''WebSocket connection failed''\<rparr>) d"

text \<open>
  \<open>subscribeToScript\<close>, reading \<open>websocket\<close> and \<open>isConnected\<close> of the current render. It is
  a local function of the component; the sources hold no call of it.
\<close>

definition subscribeToScript :: "string \<Rightarrow> dashboard \<Rightarrow> dashboard" where
  "subscribeToScript scriptId d =
     (case websocket d of
        None \<Rightarrow> d
      | Some ws \<Rightarrow> if isConnected d then ws_send ws (subscribe_script scriptId) d else d)"

text \<open>
  The cleanup function of the effect,
  \<open>() => { if (websocket) { websocket.close(); } }\<close>, on the \<open>websocket\<close> it closes over.
\<close>

definition cleanup :: "dashboard \<Rightarrow> dashboard" where
  "cleanup d = (case effect_websocket d of None \<Rightarrow> d | Some ws \<Rightarrow> ws_close ws d)"

text \<open>
  The effect \<open>useEffect(() => { connectWebSocket(); return cleanup }, [connectWebSocket])\<close>.
  \<open>mount\<close> runs it after the first render, where \<open>websocket\<close> is still \<open>null\<close>; \<open>unmount\<close>
  runs the cleanup that is installed.
\<close>

definition mount :: "bool \<Rightarrow> dashboard \<Rightarrow> dashboard" where
  "mount ctor_throws d =
     connectWebSocket
       \<lparr>c_sessionId = sessionId d, c_onProcessingComplete = onProcessingComplete d\<rparr>
       ctor_throws (d\<lparr>phase := Alive, effect_websocket := websocket d\<rparr>)"

definition unmount :: "dashboard \<Rightarrow> dashboard" where
  "unmount d = (cleanup d)\<lparr>phase := Destroyed\<rparr>"

text \<open>
  A render with new props. When \<open>sessionId\<close> is as before, \<open>connectWebSocket\<close> keeps its
  identity and the effect does not run. When it differs, React runs the installed
  cleanup and then the effect of the new render: the new \<open>connectWebSocket\<close> is called,
  and the cleanup now installed closes over the \<open>websocket\<close> of this render, that is the
  state before the \<open>setWebsocket\<close> of this very call.
\<close>

definition change_props :: "string option \<Rightarrow> bool \<Rightarrow> bool \<Rightarrow> dashboard \<Rightarrow> dashboard" where
  "change_props sid cb ctor_throws d =
     (if sid = sessionId d then d\<lparr>onProcessingComplete := cb\<rparr>
      else
        let d1 = cleanup d;
            d2 = d1\<lparr>sessionId := sid, onProcessingComplete := cb,
                    effect_websocket := websocket d1\<rparr>
        in connectWebSocket \<lparr>c_sessionId = sid, c_onProcessingComplete = cb\<rparr> ctor_throws d2)"

text \<open>
  What can happen to an instance: React mounts it, renders it with new props and
  unmounts it, the browser fires the events of a socket, a pending timer runs, or
  \<open>subscribeToScript\<close> is called. The flag of \<open>Mount\<close>, \<open>PropsChange\<close> and \<open>TimerFire\<close> is
  the one of \<open>connectWebSocket\<close>.
\<close>

datatype event =
    Mount bool
  | PropsChange "string option" bool bool
  | Unmount
  | SocketOpen nat
  | SocketMessage nat "server_message option"
  | SocketError nat
  | SocketClose nat
  | TimerFire bool
  | SubscribeToScript string

text \<open>
  One event. An event the browser or React cannot produce in the current state (a second
  mount, new props for an instance that is not mounted, an \<open>open\<close> of a socket that is not
  connecting, a \<open>close\<close> of a closed socket, a message on a socket that is neither open
  nor closing, a timer when none is pending) leaves the state as it is. A socket's
  event runs the handler of that socket's closure. Timers all have the same delay, so
  they run in the order in which they were set.
\<close>

definition step :: "event \<Rightarrow> dashboard \<Rightarrow> dashboard" where
  "step e d =
     (case e of
        Mount t \<Rightarrow> if phase d = Created then mount t d else d
      | PropsChange sid cb t \<Rightarrow> if phase d = Alive then change_props sid cb t d else d
      | Unmount \<Rightarrow> if phase d = Alive then unmount d else d
      | SocketOpen ws \<Rightarrow>
          if ws < length (sockets d) \<and> readyState (sockets d ! ws) = CONNECTING
          then on_open (handlers (sockets d ! ws)) ws (set_readyState ws OPEN d) else d
      | SocketMessage ws data \<Rightarrow>
          if ws < length (sockets d) \<and> readyState (sockets d ! ws) \<in> {OPEN, CLOSING}
          then on_message (handlers (sockets d ! ws)) data d else d
      | SocketError ws \<Rightarrow>
          if ws < length (sockets d) \<and> readyState (sockets d ! ws) \<noteq> CLOSED
          then on_error d else d
      | SocketClose ws \<Rightarrow>
          if ws < length (sockets d) \<and> readyState (sockets d ! ws) \<noteq> CLOSED
          then on_close (handlers (sockets d ! ws)) (set_readyState ws CLOSED d) else d
      | TimerFire t \<Rightarrow>
          (case timers d of
             [] \<Rightarrow> d
           | (_, c) # rest \<Rightarrow> connectWebSocket c t (d\<lparr>timers := rest\<rparr>))
      | SubscribeToScript scriptId \<Rightarrow>
          if phase d = Alive then subscribeToScript scriptId d else d)"

text \<open>A sequence of events, applied from the left.\<close>

definition run :: "event list \<Rightarrow> dashboard \<Rightarrow> dashboard" where
  "run es d = fold step es d"

text \<open>The messages transmitted on socket \<open>ws\<close>, and the sockets that are not closed.\<close>

definition sent_on :: "nat \<Rightarrow> dashboard \<Rightarrow> client_message list" where
  "sent_on ws d = (if ws < length (sockets d) then sent (sockets d ! ws) else [])"

definition live :: "dashboard \<Rightarrow> socket list" where
  "live d = filter (\<lambda>s. readyState s \<noteq> CLOSED) (sockets d)"

section \<open>File selection on the upload page\<close>

text \<open>
  \<open>handleFileSelect\<close> of the upload page. A \<open>File\<close> has a name, a MIME type and a size in
  bytes. The component keeps the selected files in the state variable \<open>selectedFiles\<close>;
  \<open>toasts\<close> records the calls of \<open>toast\<close> in order.
\<close>

record File =
  file_name :: string
  file_type :: string
  file_size :: nat

record toast =
  title :: string
  description :: string
  variant :: string

record upload_view =
  selectedFiles :: "File list"
  toasts :: "toast list"

text \<open>
  The callback of \<open>fileArray.filter\<close>: its return value and the toast it shows. The type
  is tested first, with \<open>startsWith('image/')\<close>; the size limit is \<open>10 * 1024 * 1024\<close>.
\<close>

definition validate_file :: "File \<Rightarrow> bool \<times> toast list" where
  "validate_file f =
     (if \<not> prefix ''image/'' (file_type f)
      then (False, [\<lparr>title = ''Invalid File'',
                     description = file_name f @ '' is not an image file'',
                     variant = ''destructive''\<rparr>])
      else if file_size f > 10 * 1024 * 1024
      then (False, [\<lparr>title = ''File Too Large'',
                     description = file_name f @ '' is larger than 10MB'',
                     variant = ''destructive''\<rparr>])
      else (True, []))"

text \<open>\<open>handleFileSelect(files)\<close>; \<open>None\<close> is \<open>null\<close>, on which the handler returns at once.\<close>

definition handleFileSelect :: "File list option \<Rightarrow> upload_view \<Rightarrow> upload_view" where
  "handleFileSelect files v =
     (case files of
        None \<Rightarrow> v
      | Some fileArray \<Rightarrow>
          let validFiles = filter (\<lambda>f. fst (validate_file f)) fileArray
          in v\<lparr>selectedFiles := validFiles,
               toasts := toasts v @ concat (map (\<lambda>f. snd (validate_file f)) fileArray)\<rparr>)"

text \<open>The two conditions a file of the batch has to meet.\<close>

definition well_formed :: "File \<Rightarrow> bool" where
  "well_formed f = (prefix ''image/'' (file_type f) \<and> file_size f \<le> 10485760)"

section \<open>The API client\<close>

text \<open>
  \<open>TokenManager\<close> over the browser's \<open>localStorage\<close>, a map from keys to strings.
\<close>

definition TOKEN_KEY :: string where
  "TOKEN_KEY = ''auth_token''"

definition setToken :: "string \<Rightarrow> (string \<rightharpoonup> string) \<Rightarrow> (string \<rightharpoonup> string)" where
  "setToken token storage = storage(TOKEN_KEY \<mapsto> token)"

definition getToken :: "(string \<rightharpoonup> string) \<Rightarrow> string option" where
  "getToken storage = storage TOKEN_KEY"

definition removeToken :: "(string \<rightharpoonup> string) \<Rightarrow> (string \<rightharpoonup> string)" where
  "removeToken storage = storage(TOKEN_KEY := None)"

definition isAuthenticated :: "(string \<rightharpoonup> string) \<Rightarrow> bool" where
  "isAuthenticated storage = (getToken storage \<noteq> None)"

text \<open>
  A \<open>Response\<close> of \<open>fetch\<close>: its status and what \<open>response.json()\<close> resolves with (\<open>None\<close>
  when that promise rejects: the body is not JSON, or reading it fails). \<open>response.ok\<close> is
  the status being in the range 200 to 299, by the Fetch standard.
\<close>

record response =
  http_status :: nat
  json_body :: "jsval option"

definition ok :: "response \<Rightarrow> bool" where
  "ok r = (200 \<le> http_status r \<and> http_status r \<le> 299)"

text \<open>
  What an \<open>async\<close> function rejects with: \<open>Error v\<close> is \<open>new Error(v)\<close>, \<open>SyntaxError\<close> the
  rejection of \<open>response.json()\<close>, \<open>TypeError\<close> a property read on \<open>null\<close> or \<open>undefined\<close>.
\<close>

datatype js_error = Error jsval | SyntaxError | TypeError

text \<open>
  Reading the property \<open>detail\<close> or \<open>message\<close> of a value that is neither \<open>null\<close> nor
  \<open>undefined\<close>: an object gives the property's value, if it has one; no other value has
  a property of these names.
\<close>

definition read_prop :: "jsval \<Rightarrow> string \<Rightarrow> jsval" where
  "read_prop v k =
     (case v of
        JObj kvs \<Rightarrow> (case map_of kvs k of None \<Rightarrow> JUndefined | Some x \<Rightarrow> x)
      | _ \<Rightarrow> JUndefined)"

text \<open>
  \<open>ApiClient.handleResponse\<close>, with the storage before and after. \<open>Inl\<close> is a rejected
  promise, \<open>Inr\<close> the value it resolves with.
\<close>

definition handleResponse ::
  "response \<Rightarrow> (string \<rightharpoonup> string) \<Rightarrow> (js_error + jsval) \<times> (string \<rightharpoonup> string)" where
  "handleResponse response storage =
     (if \<not> ok response then
        if http_status response = 401
        then (Inl (Error (JStr ''Authentication failed. Please login again.'')),
              removeToken storage)
        else
          let errorData =
                (case json_body response of
                   None \<Rightarrow> JObj [(''message'', JStr ''Network error'')]
                 | Some v \<Rightarrow> v)
          in if errorData = JNull \<or> errorData = JUndefined then (Inl TypeError, storage)
             else (Inl (Error (js_or (read_prop errorData ''detail'')
                                 (js_or (read_prop errorData ''message'')
                                    (JStr ''API request failed'')))),
                   storage)
      else
        (case json_body response of
           None \<Rightarrow> (Inl SyntaxError, storage)
         | Some v \<Rightarrow> (Inr v, storage)))"

section \<open>The backend's triage, dispatch and review queue\<close>


text \<open>
  Modelled from the spec: the reasons of section 4.3, one for each of its five
  conditions.
\<close>

datatype review_reason =
    OcrConfidenceBelow
  | EvaluationConfidenceBelow
  | VerificationConfidenceBelow
  | BelowPassingMarks
  | ProcessingError



text \<open>
  Modelled from the spec: the status of a review entry (section 3), pending or resolved.
\<close>

datatype review_status = ReviewPending | ReviewResolved

text \<open>
  Modelled from the spec: the \<open>ReviewEntry\<close> of section 3. Times are natural numbers.
\<close>

record ReviewEntry =
  review_id :: nat
  review_script_id :: string
  review_evaluation_id :: string
  reasons :: "review_reason list"
  priority :: nat
  review_status :: review_status
  original_score :: real
  manual_score :: "real option"
  reviewer_notes :: string
  flagged_at :: nat
  resolved_at :: "nat option"

text \<open>Replace the first element that satisfies \<open>P\<close>.\<close>

fun update_first :: "('a \<Rightarrow> bool) \<Rightarrow> ('a \<Rightarrow> 'a) \<Rightarrow> 'a list \<Rightarrow> 'a list" where
  "update_first P f [] = []"
| "update_first P f (x # xs) = (if P x then f x # xs else x # update_first P f xs)"


text \<open>
  Modelled from the spec: the errors of \<open>resolve\<close>, the \<open>ReviewConflictError\<close> of section 7
  and the error for an identity that no entry has.
\<close>

datatype review_error = ReviewNotFound | ReviewConflictError

text \<open>
  Modelled from the spec: \<open>resolve(reviewId, manualScore, notes)\<close> of section 4.5 with
  the \<open>ReviewConflictError\<close> of section 7. The backend endpoint behind
  \<open>evaluationsApi.submitManualReview\<close> is not among the sources. Resolving records the
  manual score, the notes and the time beside the original score; resolving a resolved
  entry is rejected and changes nothing.
\<close>

definition resolve ::
  "nat \<Rightarrow> real \<Rightarrow> string \<Rightarrow> nat \<Rightarrow> ReviewEntry list \<Rightarrow>
     (review_error + ReviewEntry) \<times> ReviewEntry list" where
  "resolve reviewId manualScore notes now entries =
     (case find (\<lambda>e. review_id e = reviewId) entries of
        None \<Rightarrow> (Inl ReviewNotFound, entries)
      | Some e \<Rightarrow>
          if review_status e = ReviewResolved then (Inl ReviewConflictError, entries)
          else
            let upd = (\<lambda>e. e\<lparr>review_status := ReviewResolved,
                               manual_score := Some manualScore,
                               reviewer_notes := notes,
                               resolved_at := Some now\<rparr>)
            in (Inr (upd e), update_first (\<lambda>e. review_id e = reviewId) upd entries))"

text \<open>
  Modelled from the spec: the threshold \<open>T\<close> of the Dispatch Scheduler (section 4.2), with
  its default 5, the README's \<open>REAL_TIME_THRESHOLD=5\<close>.
\<close>

definition REAL_TIME_THRESHOLD :: nat where
  "REAL_TIME_THRESHOLD = 5"

text \<open>
  Modelled from the spec: the outcome of one file in the response of \<open>dispatch\<close>, either
  the file's terminal result (a failure, \<open>Inl\<close>, or a completed result, \<open>Inr\<close>) or a task
  handle.
\<close>

datatype ('e, 'r) outcome = Terminal "'e + 'r" | TaskHandle nat

text \<open>
  Modelled from the spec: the Dispatch Scheduler's \<open>dispatch(batch)\<close> (section 4.2); the
  backend behind \<open>scriptsApi.uploadBatch\<close> is not among the sources. \<open>pipeline\<close> is the
  run of one file to its terminal result. The durable work queue is the list of the
  files handed to it, and a task handle is a file's position in that list. The result is
  the response, one outcome per file, and the work queue afterwards.
\<close>

definition dispatch ::
  "nat \<Rightarrow> ('f \<Rightarrow> 'e + 'r) \<Rightarrow> 'f list \<Rightarrow> 'f list \<Rightarrow> ('e, 'r) outcome list \<times> 'f list" where
  "dispatch T pipeline batch queue =
     (if length batch \<le> T
      then (map (\<lambda>f. Terminal (pipeline f)) batch, queue)
      else (map TaskHandle [length queue ..< length queue + length batch], queue @ batch))"

text \<open>Whether an outcome is a terminal result.\<close>

fun is_terminal :: "('e, 'r) outcome \<Rightarrow> bool" where
  "is_terminal (Terminal _) = True"
| "is_terminal (TaskHandle _) = False"

section \<open>Observations and example inputs\<close>

text \<open>
  The progress stored for script \<open>sid\<close> after each update of a sequence, applied from the
  left to the map \<open>m\<close>.
\<close>

fun progress_trace ::
  "string \<Rightarrow> ProcessingUpdate list \<Rightarrow> (string \<rightharpoonup> ScriptProcessingState) \<Rightarrow> real list" where
  "progress_trace sid [] m = []"
| "progress_trace sid (u # us) m =
     (let m' = updateScriptProcessing u m
      in (case m' sid of None \<Rightarrow> [] | Some st \<Rightarrow> [progress st]) @ progress_trace sid us m')"

text \<open>
  Five \<open>script_update\<close> messages for the script \<open>s1\<close>, with their timestamps: OCR done (1),
  a failure (2), evaluation done (3), completed (4), and a later message that reports
  the script as processing at the image validation again (5).
\<close>

definition upd_ocr :: ProcessingUpdate where
  "upd_ocr =
     \<lparr> u_script_id = ''s1'', u_status = Processing, u_stage = ''ocr_completed'',
       u_progress = 40, u_stage_description = ''OCR done'',
       u_estimated_remaining_time = 40, u_details = None, u_result = None,
       u_error = None, u_timestamp = 1 \<rparr>"

definition upd_eval :: ProcessingUpdate where
  "upd_eval =
     \<lparr> u_script_id = ''s1'', u_status = Processing, u_stage = ''evaluation_completed'',
       u_progress = 70, u_stage_description = ''Evaluation done'',
       u_estimated_remaining_time = 15, u_details = None, u_result = None,
       u_error = None, u_timestamp = 3 \<rparr>"

definition upd_done :: ProcessingUpdate where
  "upd_done =
     \<lparr> u_script_id = ''s1'', u_status = Completed, u_stage = ''completed'',
       u_progress = 100, u_stage_description = ''All done'',
       u_estimated_remaining_time = 0, u_details = None, u_result = None,
       u_error = None, u_timestamp = 4 \<rparr>"

definition upd_failed :: ProcessingUpdate where
  "upd_failed =
     \<lparr> u_script_id = ''s1'', u_status = Failed, u_stage = ''failed'',
       u_progress = 40, u_stage_description = ''OCR failed'',
       u_estimated_remaining_time = 0, u_details = None, u_result = None,
       u_error = Some ''OCR failed'', u_timestamp = 2 \<rparr>"

definition upd_again :: ProcessingUpdate where
  "upd_again =
     \<lparr> u_script_id = ''s1'', u_status = Processing, u_stage = ''image_validated'',
       u_progress = 20, u_stage_description = ''Validating image'',
       u_estimated_remaining_time = 60, u_details = None, u_result = None,
       u_error = None, u_timestamp = 5 \<rparr>"

text \<open>
  Four files of one selection: a PNG of 1 MiB, a PDF, a JPEG one byte over the limit and
  a JPEG of exactly 10 MiB; and the upload page before any selection.
\<close>

definition file_png :: File where
  "file_png = \<lparr>file_name = ''a.png'', file_type = ''image/png'', file_size = 1048576\<rparr>"

definition file_pdf :: File where
  "file_pdf = \<lparr>file_name = ''b.pdf'', file_type = ''application/pdf'', file_size = 2048\<rparr>"

definition file_big :: File where
  "file_big = \<lparr>file_name = ''c.jpg'', file_type = ''image/jpeg'', file_size = 10485761\<rparr>"

definition file_limit :: File where
  "file_limit = \<lparr>file_name = ''d.jpg'', file_type = ''image/jpeg'', file_size = 10485760\<rparr>"

definition no_selection :: upload_view where
  "no_selection = \<lparr>selectedFiles = [], toasts = []\<rparr>"

text \<open>
  Four responses: a 401 and a 422 with a JSON \<open>detail\<close>, a 502 whose body is not JSON and a
  200 with a JSON body; and a storage that holds a token.
\<close>

definition resp_401 :: response where
  "resp_401 =
     \<lparr>http_status = 401,
      json_body = Some (JObj [(''detail'', JStr ''Could not validate credentials'')])\<rparr>"

definition resp_422 :: response where
  "resp_422 =
     \<lparr>http_status = 422, json_body = Some (JObj [(''detail'', JStr ''Session not found'')])\<rparr>"

definition resp_502 :: response where
  "resp_502 = \<lparr>http_status = 502, json_body = None\<rparr>"

definition resp_200 :: response where
  "resp_200 = \<lparr>http_status = 200, json_body = Some (JObj [(''status'', JStr ''healthy'')])\<rparr>"

definition logged_in :: "string \<rightharpoonup> string" where
  "logged_in = Map.empty(''auth_token'' \<mapsto> ''tok'')"




text \<open>A pending review entry with identity 7 and automated score 35.\<close>

definition entry_pending :: ReviewEntry where
  "entry_pending =
     \<lparr> review_id = 7, review_script_id = ''s2'', review_evaluation_id = ''e2'',
       reasons = [BelowPassingMarks], priority = 1, review_status = ReviewPending,
       original_score = 35, manual_score = None, reviewer_notes = [],
       flagged_at = 10, resolved_at = None \<rparr>"

text \<open>
  A pipeline on file names that fails on \<open>bad.png\<close> and gives every other file its name's
  length as the result; a batch of three files and a batch of six.
\<close>

definition example_pipeline :: "string \<Rightarrow> string + nat" where
  "example_pipeline f = (if f = ''bad.png'' then Inl ''OCR failed'' else Inr (length f))"

definition small_batch :: "string list" where
  "small_batch = [''a.png'', ''bad.png'', ''c.png'']"

definition large_batch :: "string list" where
  "large_batch = [''a.png'', ''bad.png'', ''c.png'', ''d.png'', ''e.png'', ''f.png'']"

text \<open>
  Two properties of an instance. A socket that is still connecting has transmitted
  nothing. And every socket and every pending timer has the closure \<open>c\<close>, whose
  \<open>sessionId\<close> is the current prop.
\<close>

definition connecting_unsent :: "dashboard \<Rightarrow> bool" where
  "connecting_unsent d = (\<forall>s\<in>set (sockets d). readyState s = CONNECTING \<longrightarrow> sent s = [])"

definition closures_are :: "closure \<Rightarrow> dashboard \<Rightarrow> bool" where
  "closures_are c d =
     (sessionId d = c_sessionId c \<and>
      (phase d = Created \<longrightarrow> onProcessingComplete d = c_onProcessingComplete c) \<and>
      (\<forall>s\<in>set (sockets d). handlers s = c) \<and>
      (\<forall>t\<in>set (timers d). snd t = c))"

text \<open>Whether an event is a render with a \<open>sessionId\<close> other than \<open>sid\<close>.\<close>

fun changes_sessionId :: "string option \<Rightarrow> event \<Rightarrow> bool" where
  "changes_sessionId sid (PropsChange sid' _ _) = (sid' \<noteq> sid)"
| "changes_sessionId sid _ = False"

text \<open>What \<open>ws.onopen\<close> sends for the \<open>sessionId\<close> of its closure.\<close>

definition session_subscription :: "string option \<Rightarrow> client_message list" where
  "session_subscription sid =
     (case sid of None \<Rightarrow> [] | Some s \<Rightarrow> if s \<noteq> [] then [subscribe_session s] else [])"

text \<open>
  A dashboard of session \<open>sess\<close> connects and receives the OCR update of script \<open>s1\<close>;
  then the connection is lost and the timer creates the next socket, which is still
  connecting.
\<close>

definition lost_and_retried :: "event list" where
  "lost_and_retried =
     [Mount False, SocketOpen 0, SocketMessage 0 (Some (script_update upd_ocr)),
      SocketClose 0, TimerFire False]"

text \<open>
  Three other histories of a dashboard of session \<open>sess\<close>. It connects and is unmounted.
  It connects and is unmounted, then its socket closes and the timer runs. It connects,
  is rendered with the \<open>sessionId\<close> \<open>sess2\<close>, and the socket of that render opens.
\<close>

definition unmounted :: "event list" where
  "unmounted = [Mount False, SocketOpen 0, Unmount]"

definition closed_after_unmount :: "event list" where
  "closed_after_unmount = [Mount False, SocketOpen 0, Unmount, SocketClose 0, TimerFire False]"

definition session_changed :: "event list" where
  "session_changed = [Mount False, SocketOpen 0, PropsChange (Some ''sess2'') False False, SocketOpen 1]"

text \<open>
  A fifth history: the dashboard of session \<open>sess\<close> connects and is rendered with the
  \<open>sessionId\<close> \<open>sess2\<close>; the socket of that render opens; then the first socket closes and
  its timer creates a third socket, which is still connecting.
\<close>

definition retried_after_change :: "event list" where
  "retried_after_change =
     [Mount False, SocketOpen 0, PropsChange (Some ''sess2'') False False, SocketOpen 1,
      SocketClose 0, TimerFire False]"

section \<open>Properties of the update handler\<close>

lemma updateScriptProcessing_same:
  "updateScriptProcessing u m (u_script_id u) = Some (updatedState u (m (u_script_id u)))"
  by (simp add: updateScriptProcessing_def)

lemma updateScriptProcessing_other:
  "k \<noteq> u_script_id u \<Longrightarrow> updateScriptProcessing u m k = m k"
  by (simp add: updateScriptProcessing_def)

lemma canonical_updatedState: "canonical (updatedState u ex) = u_canonical u"
  by (simp add: canonical_def u_canonical_def updatedState_def)

lemma progress_updatedState: "progress (updatedState u ex) = u_progress u"
  by (simp add: updatedState_def)

lemma canonical_after_update:
  "map_option canonical (updateScriptProcessing u m (u_script_id u)) = Some (u_canonical u)"
  by (simp add: updateScriptProcessing_same canonical_updatedState)

lemma progress_trace_same:
  "\<forall>u\<in>set us. u_script_id u = sid \<Longrightarrow> progress_trace sid us m = map u_progress us"
proof (induction us arbitrary: m)
  case Nil
  show ?case by simp
next
  case (Cons u us)
  have "updateScriptProcessing u m sid = Some (updatedState u (m sid))"
    using Cons.prems updateScriptProcessing_same [of u m] by simp
  then show ?case
    using Cons by (simp add: Let_def progress_updatedState)
qed

subsection \<open>C1: stale events\<close>

text \<open>
  C1, as the spec states it, fails. The OCR update has the smaller timestamp (1 < 4). When
  it arrives after the completion update it is not discarded: the stored stage, status
  and progress become those of the OCR update, not those the completion update alone
  produces.
\<close>

theorem stale_event_counterexample:
  "u_script_id upd_ocr = u_script_id upd_done \<and> u_timestamp upd_ocr < u_timestamp upd_done \<and>
   map_option canonical (updateScriptProcessing upd_done Map.empty ''s1'')
     = Some (''completed'', Completed, 100) \<and>
   map_option canonical
      (updateScriptProcessing upd_ocr (updateScriptProcessing upd_done Map.empty) ''s1'')
     = Some (''ocr_completed'', Processing, 40)"
  by (simp add: updateScriptProcessing_def updatedState_def canonical_def
        upd_ocr_def upd_done_def)

text \<open>
  C1, amended: the handler compares no timestamps. Every update is applied, and after it
  the stored stage, status and progress of its script are those of that update. For two
  events on the same script they are therefore those of the event that arrived last:
  of \<open>e2\<close> after the arrival order \<open>e1, e2\<close> and of \<open>e1\<close> after \<open>e2, e1\<close>, whatever the
  timestamps.
\<close>

theorem last_arrival_wins:
  assumes "u_script_id e1 = u_script_id e2"
  shows "map_option canonical
           (updateScriptProcessing e2 (updateScriptProcessing e1 m) (u_script_id e2))
         = Some (u_canonical e2) \<and>
         map_option canonical
           (updateScriptProcessing e1 (updateScriptProcessing e2 m) (u_script_id e2))
         = Some (u_canonical e1)"
proof -
  have "map_option canonical
          (updateScriptProcessing e1 (updateScriptProcessing e2 m) (u_script_id e1))
        = Some (u_canonical e1)"
    by (rule canonical_after_update)
  with assms show ?thesis
    by (simp add: canonical_after_update)
qed

text \<open>The amended C1 at the OCR and the completion update, in both arrival orders.\<close>

theorem last_arrival_wins_witness:
  "u_script_id upd_ocr = u_script_id upd_done \<and>
   map_option canonical
     (updateScriptProcessing upd_done (updateScriptProcessing upd_ocr Map.empty) ''s1'')
     = Some (''completed'', Completed, 100) \<and>
   map_option canonical
     (updateScriptProcessing upd_ocr (updateScriptProcessing upd_done Map.empty) ''s1'')
     = Some (''ocr_completed'', Processing, 40)"
  using last_arrival_wins [of upd_ocr upd_done Map.empty]
  by (simp add: u_canonical_def upd_ocr_def upd_done_def)

subsection \<open>C2: updates after a terminal status\<close>

text \<open>
  C2, as the spec states it, fails. After the failure update the stored status is
  \<open>failed\<close>; the evaluation update that follows, with a later timestamp, changes stage,
  status and progress.
\<close>

theorem terminal_overwritten_counterexample:
  "u_timestamp upd_failed < u_timestamp upd_eval \<and>
   map_option canonical (updateScriptProcessing upd_failed Map.empty ''s1'')
     = Some (''failed'', Failed, 40) \<and>
   map_option canonical
     (updateScriptProcessing upd_eval (updateScriptProcessing upd_failed Map.empty) ''s1'')
     = Some (''evaluation_completed'', Processing, 70)"
  by (simp add: updateScriptProcessing_def updatedState_def canonical_def
        upd_eval_def upd_failed_def)

text \<open>
  C2, amended: a stored terminal status (completed or failed) does not stop the handler.
  A further update for the script replaces the stored stage, status and progress by its
  own, so they stay as they were exactly when the update carries the same three values;
  the entries of all other scripts are left as they are.
\<close>

theorem terminal_overwritten:
  assumes "m (u_script_id u) = Some st"
    and "status st = Completed \<or> status st = Failed"
  shows "map_option canonical (updateScriptProcessing u m (u_script_id u))
           = Some (u_canonical u) \<and>
         (map_option canonical (updateScriptProcessing u m (u_script_id u))
            = map_option canonical (m (u_script_id u))
          \<longleftrightarrow> u_canonical u = canonical st) \<and>
         (\<forall>k. k \<noteq> u_script_id u \<longrightarrow> updateScriptProcessing u m k = m k)"
  using assms
  by (simp add: canonical_after_update updateScriptProcessing_other)

text \<open>
  The amended C2 on the map that holds the failed script \<open>s1\<close>, at the evaluation update:
  the stored triple changes, and the entry of another script \<open>s2\<close> stays absent.
\<close>

theorem terminal_overwritten_witness:
  "updateScriptProcessing upd_failed Map.empty ''s1''
     = Some (updatedState upd_failed None) \<and>
   status (updatedState upd_failed None) = Failed \<and>
   map_option canonical
     (updateScriptProcessing upd_eval (updateScriptProcessing upd_failed Map.empty) ''s1'')
     = Some (''evaluation_completed'', Processing, 70) \<and>
   map_option canonical
     (updateScriptProcessing upd_eval (updateScriptProcessing upd_failed Map.empty) ''s1'')
     \<noteq> map_option canonical (updateScriptProcessing upd_failed Map.empty ''s1'') \<and>
   updateScriptProcessing upd_eval (updateScriptProcessing upd_failed Map.empty) ''s2'' = None"
proof -
  have sid: "u_script_id upd_eval = ''s1''"
    by (simp add: upd_eval_def)
  have stored: "updateScriptProcessing upd_failed Map.empty (u_script_id upd_eval)
      = Some (updatedState upd_failed None)"
    by (simp add: updateScriptProcessing_def upd_failed_def upd_eval_def)
  have terminal: "status (updatedState upd_failed None) = Completed
      \<or> status (updatedState upd_failed None) = Failed"
    by (simp add: updatedState_def upd_failed_def)
  have differs: "u_canonical upd_eval \<noteq> canonical (updatedState upd_failed None)"
    by (simp add: u_canonical_def canonical_def updatedState_def upd_eval_def upd_failed_def)
  have other: "updateScriptProcessing upd_failed Map.empty ''s2'' = None"
    by (simp add: updateScriptProcessing_def upd_failed_def)
  note th = terminal_overwritten
         [where m = "updateScriptProcessing upd_failed Map.empty" and u = upd_eval
            and st = "updatedState upd_failed None", OF stored terminal]
  have new: "map_option canonical
      (updateScriptProcessing upd_eval (updateScriptProcessing upd_failed Map.empty) ''s1'')
      = Some (u_canonical upd_eval)"
    using th sid by simp
  have changed: "map_option canonical
      (updateScriptProcessing upd_eval (updateScriptProcessing upd_failed Map.empty) ''s1'')
      \<noteq> map_option canonical (updateScriptProcessing upd_failed Map.empty ''s1'')"
    using th differs sid by simp
  have frame: "updateScriptProcessing upd_eval (updateScriptProcessing upd_failed Map.empty) ''s2''
      = updateScriptProcessing upd_failed Map.empty ''s2''"
    using th sid by simp
  have triple: "u_canonical upd_eval = (''evaluation_completed'', Processing, 70)"
    by (simp add: u_canonical_def upd_eval_def)
  have failed: "status (updatedState upd_failed None) = Failed"
    by (simp add: updatedState_def upd_failed_def)
  from stored sid new changed frame other triple failed show ?thesis
    by simp
qed

subsection \<open>C3: progress while processing\<close>

text \<open>
  C3, as the spec states it, fails. The evaluation update stores progress 70 with status
  \<open>processing\<close>; the next update, with a later timestamp and progress 20, is applied as
  well: the stored progress falls to 20 while the status is \<open>processing\<close> before and after.
\<close>

theorem progress_decreases_counterexample:
  "u_timestamp upd_eval < u_timestamp upd_again \<and>
   map_option (\<lambda>s. (status s, progress s)) (updateScriptProcessing upd_eval Map.empty ''s1'')
     = Some (Processing, 70) \<and>
   map_option (\<lambda>s. (status s, progress s))
     (updateScriptProcessing upd_again (updateScriptProcessing upd_eval Map.empty) ''s1'')
     = Some (Processing, 20)"
  by (simp add: updateScriptProcessing_def updatedState_def upd_eval_def upd_again_def)

text \<open>
  C3, amended: the progress stored after each applied update is that update's progress
  value, whatever the stored status. Over a sequence of updates for one script the
  stored progress is therefore non-decreasing exactly when the updates arrive with
  non-decreasing progress values.
\<close>

theorem progress_follows_updates:
  assumes "\<forall>u\<in>set us. u_script_id u = sid"
  shows "progress_trace sid us m = map u_progress us \<and>
         (sorted (progress_trace sid us m) \<longleftrightarrow> sorted (map u_progress us))"
  using assms by (simp add: progress_trace_same)

text \<open>The amended C3 at the OCR update followed by the evaluation update.\<close>

theorem progress_follows_updates_witness:
  "set [upd_ocr, upd_eval] = {upd_ocr, upd_eval} \<and>
   u_script_id upd_ocr = ''s1'' \<and> u_script_id upd_eval = ''s1'' \<and>
   progress_trace ''s1'' [upd_ocr, upd_eval] Map.empty = [40, 70] \<and>
   sorted (progress_trace ''s1'' [upd_ocr, upd_eval] Map.empty)"
proof -
  have same: "\<forall>u\<in>set [upd_ocr, upd_eval]. u_script_id u = ''s1''"
    by (simp add: upd_ocr_def upd_eval_def)
  from progress_follows_updates [OF same, of Map.empty] same
  show ?thesis
    by (simp add: upd_ocr_def upd_eval_def)
qed

section \<open>Properties of the dashboard's connection\<close>

lemmas handler_defs = mount_def unmount_def cleanup_def change_props_def connectWebSocket_def
  react_set_def on_open_def on_close_def on_error_def on_message_def
  handleWebSocketMessage_def subscribeToScript_def ws_send_def ws_close_def
  set_readyState_def

lemma in_set_updateD: "s \<in> set (xs[i := y]) \<Longrightarrow> s = y \<or> s \<in> set xs"
  using set_update_subset_insert [of xs i y] by auto

lemma run_Nil: "run [] d = d"
  by (simp add: run_def)

lemma run_Cons: "run (e # es) d = run es (step e d)"
  by (simp add: run_def)

subsection \<open>The sockets and timers after each handler\<close>

lemma sockets_connectWebSocket:
  "sockets (connectWebSocket c t d)
     = (if t then sockets d
        else sockets d @ [\<lparr>readyState = CONNECTING, sent = [], handlers = c\<rparr>])"
  by (simp add: connectWebSocket_def react_set_def Let_def)

lemma timers_connectWebSocket: "timers (connectWebSocket c t d) = timers d"
  by (simp add: connectWebSocket_def react_set_def Let_def)

lemma sessionId_connectWebSocket: "sessionId (connectWebSocket c t d) = sessionId d"
  by (simp add: connectWebSocket_def react_set_def Let_def)

lemma sockets_ws_send:
  "sockets (ws_send ws msg d)
     = (if ws < length (sockets d) \<and> readyState (sockets d ! ws) = OPEN
        then (sockets d)[ws := (sockets d ! ws)\<lparr>sent := sent (sockets d ! ws) @ [msg]\<rparr>]
        else sockets d)"
  by (simp add: ws_send_def)

lemma sockets_ws_close:
  "sockets (ws_close ws d)
     = (if ws < length (sockets d) \<and> readyState (sockets d ! ws) \<in> {CONNECTING, OPEN}
        then (sockets d)[ws := (sockets d ! ws)\<lparr>readyState := CLOSING\<rparr>]
        else sockets d)"
  by (auto simp add: ws_close_def)

lemma timers_cleanup: "timers (cleanup d) = timers d"
  by (simp add: cleanup_def ws_close_def split: option.splits)

lemma sessionId_cleanup: "sessionId (cleanup d) = sessionId d"
  by (simp add: cleanup_def ws_close_def split: option.splits)

lemma sockets_cleanup:
  "sockets (cleanup d)
     = (case effect_websocket d of None \<Rightarrow> sockets d | Some ws \<Rightarrow> sockets (ws_close ws d))"
  by (simp add: cleanup_def split: option.splits)

lemma sockets_on_open:
  "sockets (on_open c ws d)
     = (if ws < length (sockets d) \<and> readyState (sockets d ! ws) = OPEN
        then (sockets d)[ws := (sockets d ! ws)
               \<lparr>sent := sent (sockets d ! ws) @ session_subscription (c_sessionId c)\<rparr>]
        else sockets d)"
  by (auto simp add: on_open_def react_set_def ws_send_def session_subscription_def Let_def
        split: option.splits)

lemma timers_on_open: "timers (on_open c ws d) = timers d"
  by (simp add: on_open_def react_set_def ws_send_def Let_def split: option.splits)

lemma sockets_on_message: "sockets (on_message c data d) = sockets d"
  by (simp add: on_message_def handleWebSocketMessage_def react_set_def Let_def
        split: option.splits server_message.splits)

lemma timers_on_message: "timers (on_message c data d) = timers d"
  by (simp add: on_message_def handleWebSocketMessage_def react_set_def Let_def
        split: option.splits server_message.splits)

lemma sockets_on_error: "sockets (on_error d) = sockets d"
  by (simp add: on_error_def react_set_def)

lemma timers_on_error: "timers (on_error d) = timers d"
  by (simp add: on_error_def react_set_def)

lemma sockets_on_close: "sockets (on_close c d) = sockets d"
  by (simp add: on_close_def react_set_def Let_def)

lemma timers_on_close: "timers (on_close c d) = timers d @ [(3000, c)]"
  by (simp add: on_close_def react_set_def Let_def)

lemma sockets_subscribeToScript:
  "sockets (subscribeToScript scriptId d)
     = (case websocket d of
          None \<Rightarrow> sockets d
        | Some ws \<Rightarrow>
            if isConnected d then sockets (ws_send ws (subscribe_script scriptId) d)
            else sockets d)"
  by (simp add: subscribeToScript_def split: option.splits)

lemma timers_subscribeToScript: "timers (subscribeToScript scriptId d) = timers d"
  by (simp add: subscribeToScript_def ws_send_def split: option.splits)

lemma sockets_unmount: "sockets (unmount d) = sockets (cleanup d)"
  by (simp add: unmount_def)

lemma timers_unmount: "timers (unmount d) = timers d"
  by (simp add: unmount_def timers_cleanup)

lemma sockets_mount:
  "sockets (mount t d)
     = (if t then sockets d
        else sockets d @ [\<lparr>readyState = CONNECTING, sent = [],
               handlers = \<lparr>c_sessionId = sessionId d,
                            c_onProcessingComplete = onProcessingComplete d\<rparr>\<rparr>])"
  by (simp add: mount_def sockets_connectWebSocket)

lemma timers_mount: "timers (mount t d) = timers d"
  by (simp add: mount_def timers_connectWebSocket)

lemma sockets_change_props:
  "sockets (change_props sid cb t d)
     = (if sid = sessionId d then sockets d
        else if t then sockets (cleanup d)
        else sockets (cleanup d)
               @ [\<lparr>readyState = CONNECTING, sent = [],
                    handlers = \<lparr>c_sessionId = sid, c_onProcessingComplete = cb\<rparr>\<rparr>])"
  by (simp add: change_props_def sockets_connectWebSocket Let_def)

lemma timers_change_props: "timers (change_props sid cb t d) = timers d"
  by (simp add: change_props_def timers_connectWebSocket timers_cleanup Let_def)

lemma phase_step:
  "phase (step e d)
     = (case e of
          Mount t \<Rightarrow> if phase d = Created then Alive else phase d
        | Unmount \<Rightarrow> if phase d = Alive then Destroyed else phase d
        | _ \<Rightarrow> phase d)"
  by (cases e)
    (simp_all add: step_def handler_defs Let_def
       split: option.splits list.splits server_message.splits prod.splits)

lemma processingScripts_step:
  "processingScripts (step e d)
     = (case e of
          SocketMessage ws (Some (script_update u)) \<Rightarrow>
            if ws < length (sockets d) \<and> readyState (sockets d ! ws) \<in> {OPEN, CLOSING} \<and>
               phase d = Alive
            then updateScriptProcessing u (processingScripts d)
            else processingScripts d
        | _ \<Rightarrow> processingScripts d)"
  by (cases e)
    (auto simp add: step_def handler_defs Let_def
       split: option.splits list.splits server_message.splits prod.splits)

subsection \<open>A connecting socket has sent nothing\<close>

lemma connecting_unsent_same:
  "sockets d' = sockets d \<Longrightarrow> connecting_unsent d \<Longrightarrow> connecting_unsent d'"
  by (simp add: connecting_unsent_def)

lemma connecting_unsent_update:
  assumes "connecting_unsent d" and "sockets d' = (sockets d)[i := y]"
    and "readyState y \<noteq> CONNECTING"
  shows "connecting_unsent d'"
  unfolding connecting_unsent_def
proof (intro ballI impI)
  fix s
  assume "s \<in> set (sockets d')" and c: "readyState s = CONNECTING"
  then have "s = y \<or> s \<in> set (sockets d)"
    using assms(2) in_set_updateD by metis
  with c assms(3) have "s \<in> set (sockets d)"
    by auto
  with c assms(1) show "sent s = []"
    by (simp add: connecting_unsent_def)
qed

lemma connecting_unsent_append:
  assumes "connecting_unsent d"
    and "sockets d' = sockets d @ [\<lparr>readyState = CONNECTING, sent = [], handlers = c\<rparr>]"
  shows "connecting_unsent d'"
  using assms by (auto simp add: connecting_unsent_def)

lemma connecting_unsent_ws_send:
  "connecting_unsent d \<Longrightarrow> connecting_unsent (ws_send ws msg d)"
  by (cases "ws < length (sockets d) \<and> readyState (sockets d ! ws) = OPEN")
    (auto simp add: sockets_ws_send
       intro: connecting_unsent_update [where i = ws] connecting_unsent_same)

lemma connecting_unsent_ws_close:
  "connecting_unsent d \<Longrightarrow> connecting_unsent (ws_close ws d)"
  by (cases "ws < length (sockets d) \<and> readyState (sockets d ! ws) \<in> {CONNECTING, OPEN}")
    (auto simp add: sockets_ws_close
       intro: connecting_unsent_update [where i = ws and d = d] connecting_unsent_same)

lemma connecting_unsent_cleanup:
  "connecting_unsent d \<Longrightarrow> connecting_unsent (cleanup d)"
  by (simp add: cleanup_def connecting_unsent_ws_close split: option.splits)

lemma connecting_unsent_connect:
  "connecting_unsent d \<Longrightarrow> sockets d' = sockets d \<Longrightarrow>
   connecting_unsent (connectWebSocket c t d')"
  by (cases t)
    (auto simp add: sockets_connectWebSocket
       intro: connecting_unsent_append connecting_unsent_same)

lemma connecting_unsent_step:
  assumes "connecting_unsent d"
  shows "connecting_unsent (step e d)"
proof (cases e)
  case (Mount t)
  show ?thesis
    unfolding Mount step_def using assms
    by (auto simp add: mount_def intro: connecting_unsent_connect)
next
  case (PropsChange sid cb t)
  have "connecting_unsent (change_props sid cb t d)"
  proof (cases "sid = sessionId d")
    case True
    with assms show ?thesis
      by (simp add: change_props_def connecting_unsent_def)
  next
    case False
    have "connecting_unsent (cleanup d)"
      using assms by (rule connecting_unsent_cleanup)
    then have "connecting_unsent
        (connectWebSocket \<lparr>c_sessionId = sid, c_onProcessingComplete = cb\<rparr> t
           ((cleanup d)\<lparr>sessionId := sid, onProcessingComplete := cb,
                        effect_websocket := websocket (cleanup d)\<rparr>))"
      by (rule connecting_unsent_connect) simp
    with False show ?thesis
      by (simp add: change_props_def Let_def)
  qed
  with assms show ?thesis
    by (simp add: PropsChange step_def)
next
  case Unmount
  have "connecting_unsent (unmount d)"
    using connecting_unsent_cleanup [OF assms]
    by (rule connecting_unsent_same [rotated]) (simp add: sockets_unmount)
  with assms show ?thesis
    by (simp add: Unmount step_def)
next
  case (SocketOpen ws)
  show ?thesis
  proof (cases "ws < length (sockets d) \<and> readyState (sockets d ! ws) = CONNECTING")
    case False
    with assms show ?thesis by (auto simp add: SocketOpen step_def)
  next
    case True
    let ?c = "handlers (sockets d ! ws)"
    let ?d1 = "set_readyState ws OPEN d"
    have eq: "sockets ?d1 = (sockets d)[ws := (sockets d ! ws)\<lparr>readyState := OPEN\<rparr>]"
      by (simp add: set_readyState_def)
    have "connecting_unsent ?d1"
      by (rule connecting_unsent_update [OF assms eq]) simp
    moreover have "sockets (on_open ?c ws ?d1)
        = (sockets ?d1)[ws := (sockets ?d1 ! ws)
             \<lparr>sent := sent (sockets ?d1 ! ws) @ session_subscription (c_sessionId ?c)\<rparr>]"
      using True by (simp add: sockets_on_open set_readyState_def)
    moreover have "readyState ((sockets ?d1 ! ws)
             \<lparr>sent := sent (sockets ?d1 ! ws) @ session_subscription (c_sessionId ?c)\<rparr>)
           \<noteq> CONNECTING"
      using True by (simp add: set_readyState_def)
    ultimately have "connecting_unsent (on_open ?c ws ?d1)"
      by (rule connecting_unsent_update)
    with True show ?thesis
      by (simp add: SocketOpen step_def)
  qed
next
  case (SocketMessage ws data)
  with assms show ?thesis
    by (auto simp add: step_def sockets_on_message intro: connecting_unsent_same)
next
  case (SocketError ws)
  with assms show ?thesis
    by (auto simp add: step_def sockets_on_error intro: connecting_unsent_same)
next
  case (SocketClose ws)
  show ?thesis
  proof (cases "ws < length (sockets d) \<and> readyState (sockets d ! ws) \<noteq> CLOSED")
    case False
    with assms show ?thesis by (auto simp add: SocketClose step_def)
  next
    case True
    have eq: "sockets (on_close (handlers (sockets d ! ws)) (set_readyState ws CLOSED d))
        = (sockets d)[ws := (sockets d ! ws)\<lparr>readyState := CLOSED\<rparr>]"
      by (simp add: sockets_on_close set_readyState_def)
    have "connecting_unsent (on_close (handlers (sockets d ! ws)) (set_readyState ws CLOSED d))"
      by (rule connecting_unsent_update [OF assms eq]) simp
    with True show ?thesis
      by (simp add: SocketClose step_def)
  qed
next
  case (TimerFire t)
  show ?thesis
    unfolding TimerFire step_def using assms
    by (auto split: list.splits prod.splits intro: connecting_unsent_connect)
next
  case (SubscribeToScript scriptId)
  have "connecting_unsent (subscribeToScript scriptId d)"
    using assms
    by (auto simp add: subscribeToScript_def split: option.splits
          intro: connecting_unsent_ws_send)
  with assms show ?thesis
    by (simp add: SubscribeToScript step_def)
qed

lemma connecting_unsent_run:
  "connecting_unsent d \<Longrightarrow> connecting_unsent (run es d)"
  unfolding run_def by (induction es arbitrary: d) (simp_all add: connecting_unsent_step)

lemma connecting_unsent_init: "connecting_unsent (init sid cb)"
  by (simp add: connecting_unsent_def init_def)

lemma connecting_unsentD:
  "connecting_unsent d \<Longrightarrow> ws < length (sockets d) \<Longrightarrow>
   readyState (sockets d ! ws) = CONNECTING \<Longrightarrow> sent_on ws d = []"
  by (simp add: connecting_unsent_def sent_on_def)

lemma sent_on_open:
  assumes "ws < length (sockets d)" and "readyState (sockets d ! ws) = CONNECTING"
  shows "sent_on ws (step (SocketOpen ws) d)
           = sent_on ws d @ session_subscription (c_sessionId (handlers (sockets d ! ws)))"
    and "ws' \<noteq> ws \<Longrightarrow> sent_on ws' (step (SocketOpen ws) d) = sent_on ws' d"
  using assms
  by (simp_all add: step_def sent_on_def sockets_on_open set_readyState_def)

subsection \<open>The closures while the session of the dashboard stays the same\<close>

lemma handlers_update:
  assumes "\<forall>s\<in>set xs. handlers s = c" and "i < length xs" and "handlers y = handlers (xs ! i)"
  shows "\<forall>s\<in>set (xs[i := y]). handlers s = c"
proof
  fix s
  assume "s \<in> set (xs[i := y])"
  then have "s = y \<or> s \<in> set xs"
    by (rule in_set_updateD)
  moreover have "handlers (xs ! i) = c"
    using assms(1,2) by simp
  ultimately show "handlers s = c"
    using assms(1,3) by auto
qed

lemma handlers_update_readyState:
  assumes "\<forall>s\<in>set xs. handlers s = c" and "i < length xs"
  shows "\<forall>s\<in>set (xs[i := (xs ! i)\<lparr>readyState := r\<rparr>]). handlers s = c"
  by (rule handlers_update [OF assms]) simp

lemma handlers_update_sent:
  assumes "\<forall>s\<in>set xs. handlers s = c" and "i < length xs"
  shows "\<forall>s\<in>set (xs[i := (xs ! i)\<lparr>sent := m\<rparr>]). handlers s = c"
  by (rule handlers_update [OF assms]) simp

lemma handlers_ws_send:
  assumes "\<forall>s\<in>set (sockets d). handlers s = c"
  shows "\<forall>s\<in>set (sockets (ws_send ws msg d)). handlers s = c"
proof (cases "ws < length (sockets d) \<and> readyState (sockets d ! ws) = OPEN")
  case True
  then have "sockets (ws_send ws msg d)
      = (sockets d)[ws := (sockets d ! ws)\<lparr>sent := sent (sockets d ! ws) @ [msg]\<rparr>]"
    by (simp add: sockets_ws_send)
  then show ?thesis
    using handlers_update_sent [OF assms, of ws] True by simp
next
  case False
  then have "sockets (ws_send ws msg d) = sockets d"
    by (auto simp add: sockets_ws_send)
  with assms show ?thesis by simp
qed

lemma handlers_ws_close:
  assumes "\<forall>s\<in>set (sockets d). handlers s = c"
  shows "\<forall>s\<in>set (sockets (ws_close ws d)). handlers s = c"
proof (cases "ws < length (sockets d) \<and> readyState (sockets d ! ws) \<in> {CONNECTING, OPEN}")
  case True
  then have "sockets (ws_close ws d)
      = (sockets d)[ws := (sockets d ! ws)\<lparr>readyState := CLOSING\<rparr>]"
    by (simp add: sockets_ws_close)
  then show ?thesis
    using handlers_update_readyState [OF assms, of ws] True by simp
next
  case False
  then have "sockets (ws_close ws d) = sockets d"
    by (auto simp add: sockets_ws_close)
  with assms show ?thesis by simp
qed

lemma handlers_cleanup:
  assumes "\<forall>s\<in>set (sockets d). handlers s = c"
  shows "\<forall>s\<in>set (sockets (cleanup d)). handlers s = c"
proof (cases "effect_websocket d")
  case None
  then have "sockets (cleanup d) = sockets d"
    by (simp add: sockets_cleanup)
  with assms show ?thesis by simp
next
  case (Some ws)
  then have "sockets (cleanup d) = sockets (ws_close ws d)"
    by (simp add: sockets_cleanup)
  with handlers_ws_close [OF assms, of ws] show ?thesis by simp
qed

lemma closures_areI:
  assumes "sessionId d = c_sessionId c"
    and "phase d = Created \<Longrightarrow> onProcessingComplete d = c_onProcessingComplete c"
    and "\<forall>s\<in>set (sockets d). handlers s = c"
    and "\<forall>t\<in>set (timers d). snd t = c"
  shows "closures_are c d"
  using assms by (simp add: closures_are_def)

lemma props_connectWebSocket:
  "sessionId (connectWebSocket c t d) = sessionId d"
  "phase (connectWebSocket c t d) = phase d"
  "onProcessingComplete (connectWebSocket c t d) = onProcessingComplete d"
  by (simp_all add: connectWebSocket_def react_set_def Let_def)

lemma props_ws_send:
  "sessionId (ws_send ws msg d) = sessionId d"
  "phase (ws_send ws msg d) = phase d"
  "onProcessingComplete (ws_send ws msg d) = onProcessingComplete d"
  by (simp_all add: ws_send_def)

lemma props_on_open:
  "sessionId (on_open c ws d) = sessionId d"
  "phase (on_open c ws d) = phase d"
  "onProcessingComplete (on_open c ws d) = onProcessingComplete d"
  by (simp_all add: on_open_def react_set_def props_ws_send Let_def split: option.splits)

lemma props_on_message:
  "sessionId (on_message c data d) = sessionId d"
  "phase (on_message c data d) = phase d"
  "onProcessingComplete (on_message c data d) = onProcessingComplete d"
  by (simp_all add: on_message_def handleWebSocketMessage_def react_set_def Let_def
        split: option.splits server_message.splits)

lemma props_on_error:
  "sessionId (on_error d) = sessionId d"
  "phase (on_error d) = phase d"
  "onProcessingComplete (on_error d) = onProcessingComplete d"
  by (simp_all add: on_error_def react_set_def)

lemma props_on_close:
  "sessionId (on_close c d) = sessionId d"
  "phase (on_close c d) = phase d"
  "onProcessingComplete (on_close c d) = onProcessingComplete d"
  by (simp_all add: on_close_def react_set_def Let_def)

lemma props_set_readyState:
  "sessionId (set_readyState ws r d) = sessionId d"
  "phase (set_readyState ws r d) = phase d"
  "onProcessingComplete (set_readyState ws r d) = onProcessingComplete d"
  "timers (set_readyState ws r d) = timers d"
  by (simp_all add: set_readyState_def)

lemma props_subscribeToScript:
  "sessionId (subscribeToScript scriptId d) = sessionId d"
  "phase (subscribeToScript scriptId d) = phase d"
  "onProcessingComplete (subscribeToScript scriptId d) = onProcessingComplete d"
  by (simp_all add: subscribeToScript_def props_ws_send split: option.splits)

lemma closures_are_step:
  assumes inv: "closures_are c d" and same: "\<not> changes_sessionId (c_sessionId c) e"
  shows "closures_are c (step e d)"
proof -
  from inv have sid: "sessionId d = c_sessionId c"
    and created: "phase d = Created \<Longrightarrow> onProcessingComplete d = c_onProcessingComplete c"
    and socks: "\<forall>s\<in>set (sockets d). handlers s = c"
    and tims: "\<forall>t\<in>set (timers d). snd t = c"
    by (simp_all add: closures_are_def)
  show ?thesis
  proof (cases e)
    case (Mount t)
    show ?thesis
    proof (cases "phase d = Created")
      case False
      then have "step e d = d"
        by (simp add: Mount step_def)
      with inv show ?thesis by simp
    next
      case True
      then have eq: "step e d = mount t d"
        by (simp add: Mount step_def)
      have c: "\<lparr>c_sessionId = sessionId d, c_onProcessingComplete = onProcessingComplete d\<rparr> = c"
        using sid created [OF True] by simp
      show ?thesis
        unfolding eq
      proof (rule closures_areI)
        show "sessionId (mount t d) = c_sessionId c"
          using sid by (simp add: mount_def props_connectWebSocket)
        show "\<forall>s\<in>set (sockets (mount t d)). handlers s = c"
          using socks c by (simp add: sockets_mount)
        show "\<forall>t\<in>set (timers (mount t d)). snd t = c"
          using tims by (simp add: timers_mount)
        show "onProcessingComplete (mount t d) = c_onProcessingComplete c"
          if "phase (mount t d) = Created"
          using that by (simp add: mount_def props_connectWebSocket)
      qed
    qed
  next
    case (PropsChange sid' cb t)
    show ?thesis
    proof (cases "phase d = Alive")
      case False
      then have "step e d = d"
        by (simp add: PropsChange step_def)
      with inv show ?thesis by simp
    next
      case True
      from same have "sid' = sessionId d"
        by (simp add: PropsChange sid)
      then have eq: "step e d = d\<lparr>onProcessingComplete := cb\<rparr>"
        using True by (simp add: PropsChange step_def change_props_def)
      show ?thesis
        unfolding eq
      proof (rule closures_areI)
        show "sessionId (d\<lparr>onProcessingComplete := cb\<rparr>) = c_sessionId c"
          using sid by simp
        show "\<forall>s\<in>set (sockets (d\<lparr>onProcessingComplete := cb\<rparr>)). handlers s = c"
          using socks by simp
        show "\<forall>t\<in>set (timers (d\<lparr>onProcessingComplete := cb\<rparr>)). snd t = c"
          using tims by simp
        show "onProcessingComplete (d\<lparr>onProcessingComplete := cb\<rparr>) = c_onProcessingComplete c"
          if "phase (d\<lparr>onProcessingComplete := cb\<rparr>) = Created"
          using that True by simp
      qed
    qed
  next
    case Unmount
    show ?thesis
    proof (cases "phase d = Alive")
      case False
      then have "step e d = d"
        by (simp add: Unmount step_def)
      with inv show ?thesis by simp
    next
      case True
      then have eq: "step e d = unmount d"
        by (simp add: Unmount step_def)
      show ?thesis
        unfolding eq
      proof (rule closures_areI)
        show "sessionId (unmount d) = c_sessionId c"
          using sid by (simp add: unmount_def sessionId_cleanup)
        show "\<forall>s\<in>set (sockets (unmount d)). handlers s = c"
          using handlers_cleanup [OF socks] by (simp add: sockets_unmount)
        show "\<forall>t\<in>set (timers (unmount d)). snd t = c"
          using tims by (simp add: timers_unmount)
        show "onProcessingComplete (unmount d) = c_onProcessingComplete c"
          if "phase (unmount d) = Created"
          using that by (simp add: unmount_def)
      qed
    qed
  next
    case (SocketOpen ws)
    show ?thesis
    proof (cases "ws < length (sockets d) \<and> readyState (sockets d ! ws) = CONNECTING")
      case False
      then have "step e d = d"
        by (auto simp add: SocketOpen step_def)
      with inv show ?thesis by simp
    next
      case True
      let ?d1 = "set_readyState ws OPEN d"
      let ?d' = "on_open (handlers (sockets d ! ws)) ws ?d1"
      from True have eq: "step e d = ?d'"
        by (simp add: SocketOpen step_def)
      have len: "ws < length (sockets d)"
        using True by simp
      have s1: "\<forall>s\<in>set (sockets ?d1). handlers s = c"
        using handlers_update_readyState [OF socks len] by (simp add: set_readyState_def)
      have len1: "ws < length (sockets ?d1)"
        using len by (simp add: set_readyState_def)
      have o: "readyState (sockets ?d1 ! ws) = OPEN"
        using len by (simp add: set_readyState_def)
      have s2: "sockets ?d' = (sockets ?d1)[ws := (sockets ?d1 ! ws)
          \<lparr>sent := sent (sockets ?d1 ! ws)
             @ session_subscription (c_sessionId (handlers (sockets d ! ws)))\<rparr>]"
        using len1 o by (simp only: sockets_on_open if_True simp_thms)
      show ?thesis
        unfolding eq
      proof (rule closures_areI)
        show "sessionId ?d' = c_sessionId c"
          using sid by (simp add: props_on_open props_set_readyState)
        show "\<forall>s\<in>set (sockets ?d'). handlers s = c"
          unfolding s2 by (rule handlers_update_sent [OF s1 len1])
        show "\<forall>t\<in>set (timers ?d'). snd t = c"
          using tims by (simp add: timers_on_open props_set_readyState)
        show "onProcessingComplete ?d' = c_onProcessingComplete c" if "phase ?d' = Created"
          using that created by (simp add: props_on_open props_set_readyState)
      qed
    qed
  next
    case (SocketMessage ws data)
    let ?d' = "on_message (handlers (sockets d ! ws)) data d"
    have "step e d = d \<or> step e d = ?d'"
      by (simp add: SocketMessage step_def)
    moreover have "closures_are c ?d'"
    proof (rule closures_areI)
      show "sessionId ?d' = c_sessionId c"
        using sid by (simp add: props_on_message)
      show "\<forall>s\<in>set (sockets ?d'). handlers s = c"
        using socks by (simp add: sockets_on_message)
      show "\<forall>t\<in>set (timers ?d'). snd t = c"
        using tims by (simp add: timers_on_message)
      show "onProcessingComplete ?d' = c_onProcessingComplete c" if "phase ?d' = Created"
        using that created by (simp add: props_on_message)
    qed
    ultimately show ?thesis
      using inv by auto
  next
    case (SocketError ws)
    have "step e d = d \<or> step e d = on_error d"
      by (simp add: SocketError step_def)
    moreover have "closures_are c (on_error d)"
    proof (rule closures_areI)
      show "sessionId (on_error d) = c_sessionId c"
        using sid by (simp add: props_on_error)
      show "\<forall>s\<in>set (sockets (on_error d)). handlers s = c"
        using socks by (simp add: sockets_on_error)
      show "\<forall>t\<in>set (timers (on_error d)). snd t = c"
        using tims by (simp add: timers_on_error)
      show "onProcessingComplete (on_error d) = c_onProcessingComplete c"
        if "phase (on_error d) = Created"
        using that created by (simp add: props_on_error)
    qed
    ultimately show ?thesis
      using inv by auto
  next
    case (SocketClose ws)
    show ?thesis
    proof (cases "ws < length (sockets d) \<and> readyState (sockets d ! ws) \<noteq> CLOSED")
      case False
      then have "step e d = d"
        by (auto simp add: SocketClose step_def)
      with inv show ?thesis by simp
    next
      case True
      let ?d1 = "set_readyState ws CLOSED d"
      let ?d' = "on_close (handlers (sockets d ! ws)) ?d1"
      from True have eq: "step e d = ?d'"
        by (simp add: SocketClose step_def)
      have len: "ws < length (sockets d)"
        using True by simp
      have h: "handlers (sockets d ! ws) = c"
        using len socks by simp
      show ?thesis
        unfolding eq
      proof (rule closures_areI)
        show "sessionId ?d' = c_sessionId c"
          using sid by (simp add: props_on_close props_set_readyState)
        show "\<forall>s\<in>set (sockets ?d'). handlers s = c"
          using handlers_update_readyState [OF socks len]
          by (simp add: sockets_on_close set_readyState_def)
        show "\<forall>t\<in>set (timers ?d'). snd t = c"
          using tims h by (simp add: timers_on_close props_set_readyState)
        show "onProcessingComplete ?d' = c_onProcessingComplete c" if "phase ?d' = Created"
          using that created by (simp add: props_on_close props_set_readyState)
      qed
    qed
  next
    case (TimerFire t)
    show ?thesis
    proof (cases "timers d")
      case Nil
      then have "step e d = d"
        by (simp add: TimerFire step_def)
      with inv show ?thesis by simp
    next
      case (Cons x rest)
      obtain delay c' where x: "x = (delay, c')"
        by (cases x)
      have c': "c' = c"
        using tims Cons x by simp
      let ?d' = "connectWebSocket c t (d\<lparr>timers := rest\<rparr>)"
      have eq: "step e d = ?d'"
        using Cons x c' by (simp add: TimerFire step_def)
      show ?thesis
        unfolding eq
      proof (rule closures_areI)
        show "sessionId ?d' = c_sessionId c"
          using sid by (simp add: props_connectWebSocket)
        show "\<forall>s\<in>set (sockets ?d'). handlers s = c"
          using socks by (simp add: sockets_connectWebSocket)
        show "\<forall>t\<in>set (timers ?d'). snd t = c"
          using tims Cons by (simp add: timers_connectWebSocket)
        show "onProcessingComplete ?d' = c_onProcessingComplete c" if "phase ?d' = Created"
          using that created by (simp add: props_connectWebSocket)
      qed
    qed
  next
    case (SubscribeToScript scriptId)
    let ?d' = "subscribeToScript scriptId d"
    have "step e d = d \<or> step e d = ?d'"
      by (simp add: SubscribeToScript step_def)
    moreover have "closures_are c ?d'"
    proof (rule closures_areI)
      show "sessionId ?d' = c_sessionId c"
        using sid by (simp add: props_subscribeToScript)
      show "\<forall>s\<in>set (sockets ?d'). handlers s = c"
        using socks handlers_ws_send [OF socks]
        by (simp add: sockets_subscribeToScript split: option.splits)
      show "\<forall>t\<in>set (timers ?d'). snd t = c"
        using tims by (simp add: timers_subscribeToScript)
      show "onProcessingComplete ?d' = c_onProcessingComplete c" if "phase ?d' = Created"
        using that created by (simp add: props_subscribeToScript)
    qed
    ultimately show ?thesis
      using inv by auto
  qed
qed

lemma closures_are_run:
  "closures_are c d \<Longrightarrow> \<forall>e\<in>set es. \<not> changes_sessionId (c_sessionId c) e \<Longrightarrow>
   closures_are c (run es d)"
  unfolding run_def by (induction es arbitrary: d) (simp_all add: closures_are_step)

lemma closures_are_init:
  "closures_are \<lparr>c_sessionId = sid, c_onProcessingComplete = cb\<rparr> (init sid cb)"
  by (simp add: closures_are_def init_def)

subsection \<open>C4: what a reconnect re-issues\<close>

text \<open>
  C4, as the spec states it, fails. The dashboard of session \<open>sess\<close> connects and is
  pushed the OCR update of script \<open>s1\<close>; then the connection is lost, the timer reconnects
  and the new socket opens. All that the observer does on the reconnect is to send the
  session subscription on the new socket. No snapshot is pulled: after the reconnect the
  stored state of \<open>s1\<close> is the one that was pushed before the loss, with status
  \<open>processing\<close>, whatever has become of the script in between.
\<close>

theorem reconnect_counterexample:
  "map (\<lambda>s. (readyState s, sent s))
     (sockets (run (lost_and_retried @ [SocketOpen 1]) (init (Some ''sess'') False)))
     = [(CLOSED, [subscribe_session ''sess'']), (OPEN, [subscribe_session ''sess''])] \<and>
   map_option canonical
     (processingScripts (run lost_and_retried (init (Some ''sess'') False)) ''s1'')
     = Some (''ocr_completed'', Processing, 40) \<and>
   map_option canonical
     (processingScripts
        (run (lost_and_retried @ [SocketOpen 1]) (init (Some ''sess'') False)) ''s1'')
     = Some (''ocr_completed'', Processing, 40)"
  by (simp add: lost_and_retried_def run_def step_def init_def handler_defs Let_def
        updateScriptProcessing_def updatedState_def completion_call_def canonical_def
        upd_ocr_def)

text \<open>
  C4, amended: when a socket of the observer opens, on the first connect as on every
  reconnect, the observer sends on it the one message \<open>subscribe_session\<close> for the
  \<open>sessionId\<close> of the socket's closure, if that is a non-empty string, and nothing else;
  as long as no render has changed the \<open>sessionId\<close> prop, that is the observer's
  \<open>sessionId\<close>. What was sent on other sockets is not sent again. No snapshot is pulled:
  the stored script states are changed by a pushed \<open>script_update\<close> message and by no other
  event, the opening of a socket included.
\<close>

theorem open_subscribes_session_only:
  assumes "d = run es (init sid cb)"
    and "ws < length (sockets d)" and "readyState (sockets d ! ws) = CONNECTING"
  shows "sent_on ws (step (SocketOpen ws) d)
           = session_subscription (c_sessionId (handlers (sockets d ! ws))) \<and>
         ((\<forall>e\<in>set es. \<not> changes_sessionId sid e) \<longrightarrow>
            c_sessionId (handlers (sockets d ! ws)) = sid) \<and>
         (\<forall>ws'. ws' \<noteq> ws \<longrightarrow> sent_on ws' (step (SocketOpen ws) d) = sent_on ws' d) \<and>
         (\<forall>e. (\<forall>ws' u. e \<noteq> SocketMessage ws' (Some (script_update u))) \<longrightarrow>
              processingScripts (step e d) = processingScripts d)"
proof (intro conjI allI impI)
  have "connecting_unsent d"
    unfolding assms(1) by (intro connecting_unsent_run connecting_unsent_init)
  then have "sent_on ws d = []"
    using assms(2,3) by (rule connecting_unsentD)
  then show "sent_on ws (step (SocketOpen ws) d)
      = session_subscription (c_sessionId (handlers (sockets d ! ws)))"
    using sent_on_open(1) [OF assms(2,3)] by simp
next
  assume "\<forall>e\<in>set es. \<not> changes_sessionId sid e"
  then have "closures_are \<lparr>c_sessionId = sid, c_onProcessingComplete = cb\<rparr> d"
    unfolding assms(1) by (intro closures_are_run closures_are_init) simp
  then have "\<forall>s\<in>set (sockets d). handlers s = \<lparr>c_sessionId = sid, c_onProcessingComplete = cb\<rparr>"
    by (simp add: closures_are_def)
  then have "handlers (sockets d ! ws) = \<lparr>c_sessionId = sid, c_onProcessingComplete = cb\<rparr>"
    using assms(2) by simp
  then show "c_sessionId (handlers (sockets d ! ws)) = sid"
    by simp
next
  fix ws'
  assume "ws' \<noteq> ws"
  then show "sent_on ws' (step (SocketOpen ws) d) = sent_on ws' d"
    by (rule sent_on_open(2) [OF assms(2,3)])
next
  fix e
  assume "\<forall>ws' u. e \<noteq> SocketMessage ws' (Some (script_update u))"
  then show "processingScripts (step e d) = processingScripts d"
    by (cases e) (auto simp add: processingScripts_step split: option.splits server_message.splits)
qed

text \<open>
  The amended C4 at two dashboards whose last socket is connecting. The first has lost
  its connection and retried, with the \<open>sessionId\<close> \<open>sess\<close> throughout: when socket 1
  opens, the subscription for \<open>sess\<close> alone is sent on it, socket 0 keeps what was sent on
  it, and the stored script states stay as they were. The second was rendered with
  \<open>sess2\<close> before its first socket closed: socket 2, made by the timer of the first
  socket's closure, subscribes to \<open>sess\<close>.
\<close>

theorem open_subscribes_session_only_witness:
  "1 < length (sockets (run lost_and_retried (init (Some ''sess'') False))) \<and>
   readyState (sockets (run lost_and_retried (init (Some ''sess'') False)) ! 1) = CONNECTING \<and>
   list_all (\<lambda>e. \<not> changes_sessionId (Some ''sess'') e) lost_and_retried \<and>
   sent_on 1 (step (SocketOpen 1) (run lost_and_retried (init (Some ''sess'') False)))
     = [subscribe_session ''sess''] \<and>
   sent_on 0 (step (SocketOpen 1) (run lost_and_retried (init (Some ''sess'') False)))
     = [subscribe_session ''sess''] \<and>
   processingScripts (step (SocketOpen 1) (run lost_and_retried (init (Some ''sess'') False)))
     = processingScripts (run lost_and_retried (init (Some ''sess'') False)) \<and>
   2 < length (sockets (run retried_after_change (init (Some ''sess'') False))) \<and>
   readyState (sockets (run retried_after_change (init (Some ''sess'') False)) ! 2)
     = CONNECTING \<and>
   sessionId (run retried_after_change (init (Some ''sess'') False)) = Some ''sess2'' \<and>
   sent_on 2 (step (SocketOpen 2) (run retried_after_change (init (Some ''sess'') False)))
     = [subscribe_session ''sess'']"
proof -
  let ?i = "init (Some ''sess'') False"
  let ?d = "run lost_and_retried ?i"
  let ?r = "run retried_after_change ?i"
  let ?c = "\<lparr>c_sessionId = Some ''sess'', c_onProcessingComplete = False\<rparr>"
  have socks: "sockets ?d
      = [\<lparr>readyState = CLOSED, sent = [subscribe_session ''sess''], handlers = ?c\<rparr>,
         \<lparr>readyState = CONNECTING, sent = [], handlers = ?c\<rparr>]"
    by (simp add: lost_and_retried_def run_def step_def init_def handler_defs Let_def
          completion_call_def upd_ocr_def)
  have len: "1 < length (sockets ?d)" and conn: "readyState (sockets ?d ! 1) = CONNECTING"
    by (simp_all add: socks)
  have fixed: "list_all (\<lambda>e. \<not> changes_sessionId (Some ''sess'') e) lost_and_retried"
    by (simp add: lost_and_retried_def)
  then have fixed': "\<forall>e\<in>set lost_and_retried. \<not> changes_sessionId (Some ''sess'') e"
    by (simp add: list_all_iff)
  note th = open_subscribes_session_only [OF refl len conn]
  have "c_sessionId (handlers (sockets ?d ! 1)) = Some ''sess''"
    using th fixed' by blast
  then have a: "sent_on 1 (step (SocketOpen 1) ?d) = [subscribe_session ''sess'']"
    using th by (simp add: session_subscription_def)
  have "sent_on 0 (step (SocketOpen 1) ?d) = sent_on 0 ?d"
    using th by simp
  then have b: "sent_on 0 (step (SocketOpen 1) ?d) = [subscribe_session ''sess'']"
    by (simp add: sent_on_def socks)
  have c: "processingScripts (step (SocketOpen 1) ?d) = processingScripts ?d"
    using th by simp
  have r_socks: "sockets ?r
      = [\<lparr>readyState = CLOSED, sent = [subscribe_session ''sess''], handlers = ?c\<rparr>,
         \<lparr>readyState = OPEN, sent = [subscribe_session ''sess2''],
           handlers = \<lparr>c_sessionId = Some ''sess2'', c_onProcessingComplete = False\<rparr>\<rparr>,
         \<lparr>readyState = CONNECTING, sent = [], handlers = ?c\<rparr>]"
    and r_sid: "sessionId ?r = Some ''sess2''"
    by (simp_all add: retried_after_change_def run_def step_def init_def handler_defs Let_def)
  have r_len: "2 < length (sockets ?r)" and r_conn: "readyState (sockets ?r ! 2) = CONNECTING"
    by (simp_all add: r_socks)
  have "sent_on 2 (step (SocketOpen 2) ?r)
      = session_subscription (c_sessionId (handlers (sockets ?r ! 2)))"
    using open_subscribes_session_only [OF refl r_len r_conn] by simp
  then have e: "sent_on 2 (step (SocketOpen 2) ?r) = [subscribe_session ''sess'']"
    by (simp add: r_socks session_subscription_def)
  show ?thesis
    by (rule conjI [OF len conjI [OF conn conjI [OF fixed conjI [OF a conjI [OF b conjI [OF c
          conjI [OF r_len conjI [OF r_conn conjI [OF r_sid e]]]]]]]]])
qed

subsection \<open>C8: the reconnection policy\<close>

lemma step_close:
  assumes "ws < length (sockets d)" and "readyState (sockets d ! ws) \<noteq> CLOSED"
  shows "timers (step (SocketClose ws) d) = timers d @ [(3000, handlers (sockets d ! ws))]"
    and "sockets (step (SocketClose ws) d)
           = (sockets d)[ws := (sockets d ! ws)\<lparr>readyState := CLOSED\<rparr>]"
  using assms
  by (simp_all add: step_def timers_on_close sockets_on_close set_readyState_def)

lemma step_timer:
  assumes "timers d = (delay, c) # rest"
  shows "timers (step (TimerFire False) d) = rest"
    and "sockets (step (TimerFire False) d)
           = sockets d @ [\<lparr>readyState = CONNECTING, sent = [], handlers = c\<rparr>]"
  using assms
  by (simp_all add: step_def timers_connectWebSocket sockets_connectWebSocket)

text \<open>
  C8 holds of the close handler alone, which sets one timer of 3000 ms at every close
  (\<open>step_close\<close>), and fails on the component. The dashboard of session \<open>sess\<close> connects
  and is unmounted: the cleanup closes over the \<open>websocket\<close> of the first render, which is
  \<open>null\<close>, so the socket stays open. When that socket closes later, its \<open>onclose\<close> sets
  the timer all the same, and the timer creates a new socket for the dashboard that is
  destroyed. And when a mounted dashboard is rendered with another \<open>sessionId\<close>, the same
  cleanup closes nothing and the effect connects again: two sockets are open at once.
\<close>

theorem reconnect_after_unmount:
  "phase (run unmounted (init (Some ''sess'') False)) = Destroyed \<and>
   map readyState (sockets (run unmounted (init (Some ''sess'') False))) = [OPEN] \<and>
   phase (run closed_after_unmount (init (Some ''sess'') False)) = Destroyed \<and>
   map readyState (sockets (run closed_after_unmount (init (Some ''sess'') False)))
     = [CLOSED, CONNECTING] \<and>
   phase (run session_changed (init (Some ''sess'') False)) = Alive \<and>
   map readyState (sockets (run session_changed (init (Some ''sess'') False))) = [OPEN, OPEN] \<and>
   length (live (run session_changed (init (Some ''sess'') False))) = 2"
  by (simp add: unmounted_def closed_after_unmount_def session_changed_def run_def step_def
        init_def handler_defs live_def Let_def)

section \<open>Properties of the file selection\<close>

lemma fst_validate_file: "fst (validate_file f) = well_formed f"
  by (simp add: validate_file_def well_formed_def not_less)

lemma selectedFiles_handleFileSelect:
  "selectedFiles (handleFileSelect (Some files) v) = filter well_formed files"
  by (simp add: handleFileSelect_def fst_validate_file)

lemma well_formed_iff:
  "well_formed f \<longleftrightarrow> \<not> (\<not> prefix ''image/'' (file_type f) \<or> file_size f > 10 * 1024 * 1024)"
  unfolding well_formed_def by (simp add: not_less)

text \<open>
  C9: of a selection, \<open>handleFileSelect\<close> keeps exactly the files whose type starts with
  \<open>image/\<close> and whose size is at most 10 * 1024 * 1024 bytes, in their order. So every
  file of the resulting batch meets both conditions, a file that fails one of them is
  left out, and a rejected file does not keep any other file of the selection out.
\<close>

theorem malformed_files_rejected:
  "selectedFiles (handleFileSelect (Some files) v) = filter well_formed files \<and>
   (\<forall>f\<in>set (selectedFiles (handleFileSelect (Some files) v)).
      prefix ''image/'' (file_type f) \<and> file_size f \<le> 10 * 1024 * 1024) \<and>
   (\<forall>f\<in>set files.
      f \<in> set (selectedFiles (handleFileSelect (Some files) v)) \<longleftrightarrow>
      \<not> (\<not> prefix ''image/'' (file_type f) \<or> file_size f > 10 * 1024 * 1024))"
proof -
  have "\<forall>f\<in>set (filter well_formed files).
      prefix ''image/'' (file_type f) \<and> file_size f \<le> 10 * 1024 * 1024"
    using well_formed_iff by (simp add: not_less)
  moreover have "\<forall>f\<in>set files. f \<in> set (filter well_formed files) \<longleftrightarrow>
      \<not> (\<not> prefix ''image/'' (file_type f) \<or> file_size f > 10 * 1024 * 1024)"
    using well_formed_iff by simp
  ultimately show ?thesis
    unfolding selectedFiles_handleFileSelect by blast
qed

text \<open>
  C9 at a selection of four files: the PDF and the JPEG of 10 MiB + 1 byte are left out,
  the PNG and the JPEG of exactly 10 MiB are kept.
\<close>

theorem malformed_files_rejected_witness:
  "selectedFiles (handleFileSelect (Some [file_png, file_pdf, file_big, file_limit]) no_selection)
     = [file_png, file_limit] \<and>
   prefix ''image/'' (file_type file_png) \<and> file_size file_png \<le> 10 * 1024 * 1024 \<and>
   prefix ''image/'' (file_type file_limit) \<and> file_size file_limit \<le> 10 * 1024 * 1024 \<and>
   \<not> prefix ''image/'' (file_type file_pdf) \<and> file_size file_big > 10 * 1024 * 1024"
proof -
  have wf: "well_formed file_png \<and> \<not> well_formed file_pdf \<and> \<not> well_formed file_big
      \<and> well_formed file_limit"
    by (simp add: well_formed_def file_png_def file_pdf_def file_big_def file_limit_def)
  have sel: "selectedFiles
      (handleFileSelect (Some [file_png, file_pdf, file_big, file_limit]) no_selection)
      = [file_png, file_limit]"
    using malformed_files_rejected [of "[file_png, file_pdf, file_big, file_limit]" no_selection]
      wf by simp
  have "\<not> prefix ''image/'' (file_type file_pdf) \<and> file_size file_big > 10 * 1024 * 1024"
    by (simp add: file_pdf_def file_big_def)
  with sel wf show ?thesis
    by (simp add: well_formed_def)
qed

section \<open>Properties of the API client\<close>

lemma handleResponse_401:
  "http_status r = 401 \<Longrightarrow>
   handleResponse r s
     = (Inl (Error (JStr ''Authentication failed. Please login again.'')), s(TOKEN_KEY := None))"
  by (simp add: handleResponse_def ok_def removeToken_def)

lemma handleResponse_storage:
  "http_status r \<noteq> 401 \<Longrightarrow> snd (handleResponse r s) = s"
  by (simp add: handleResponse_def Let_def split: option.splits)

lemma handleResponse_unparsed_error:
  "\<not> ok r \<Longrightarrow> http_status r \<noteq> 401 \<Longrightarrow> json_body r = None \<Longrightarrow>
   fst (handleResponse r s) = Inl (Error (JStr ''Network error''))"
  by (simp add: handleResponse_def js_or_def read_prop_def)

lemma handleResponse_parsed_error:
  "\<not> ok r \<Longrightarrow> http_status r \<noteq> 401 \<Longrightarrow> json_body r = Some v \<Longrightarrow>
   v \<noteq> JNull \<Longrightarrow> v \<noteq> JUndefined \<Longrightarrow>
   fst (handleResponse r s)
     = Inl (Error (js_or (read_prop v ''detail'')
              (js_or (read_prop v ''message'') (JStr ''API request failed''))))"
  by (simp add: handleResponse_def)

lemma handleResponse_rejects:
  "\<not> ok r \<Longrightarrow> \<exists>e. fst (handleResponse r s) = Inl e"
  by (simp add: handleResponse_def Let_def)

lemma handleResponse_ok:
  "ok r \<Longrightarrow> fst (handleResponse r s)
     = (case json_body r of None \<Rightarrow> Inl SyntaxError | Some v \<Rightarrow> Inr v)"
  by (simp add: handleResponse_def split: option.splits)

text \<open>
  C10, as stated, fails in two places. A 502 whose body is not JSON is rejected with the
  error "Network error", which is neither a detail or message of the response nor "API
  request failed"; and a 204 with an empty body has an ok status, yet no parsed body is
  returned: the promise is rejected with the parse error.
\<close>

theorem handleResponse_counterexample:
  "\<not> ok resp_502 \<and> http_status resp_502 \<noteq> 401 \<and>
   fst (handleResponse resp_502 logged_in) = Inl (Error (JStr ''Network error'')) \<and>
   ok \<lparr>http_status = 204, json_body = None\<rparr> \<and>
   fst (handleResponse \<lparr>http_status = 204, json_body = None\<rparr> logged_in) = Inl SyntaxError"
  by (simp add: handleResponse_def ok_def js_or_def read_prop_def resp_502_def)

text \<open>
  C10, amended. Status 401: the token is removed from the storage and the error is
  "Authentication failed. Please login again.". Any other status that is not ok: the
  storage is unchanged and the promise is rejected; with "Network error" when the body
  is not JSON, and, when the body parses to a value other than \<open>null\<close>, with the error
  made of its \<open>detail\<close>, else its \<open>message\<close>, else "API request failed". An ok status: the
  storage is unchanged; the parsed body is returned when the body is JSON, and the
  promise is rejected with the parse error when it is not.
\<close>

theorem handleResponse_cases:
  "(http_status r = 401 \<longrightarrow>
      handleResponse r s
        = (Inl (Error (JStr ''Authentication failed. Please login again.'')),
           s(TOKEN_KEY := None))) \<and>
   (\<not> ok r \<and> http_status r \<noteq> 401 \<longrightarrow>
      snd (handleResponse r s) = s \<and>
      (\<exists>e. fst (handleResponse r s) = Inl e) \<and>
      (json_body r = None \<longrightarrow>
         fst (handleResponse r s) = Inl (Error (JStr ''Network error''))) \<and>
      (\<forall>v. json_body r = Some v \<and> v \<noteq> JNull \<and> v \<noteq> JUndefined \<longrightarrow>
           fst (handleResponse r s)
             = Inl (Error (js_or (read_prop v ''detail'')
                      (js_or (read_prop v ''message'') (JStr ''API request failed'')))))) \<and>
   (ok r \<longrightarrow>
      snd (handleResponse r s) = s \<and>
      (json_body r = None \<longrightarrow> fst (handleResponse r s) = Inl SyntaxError) \<and>
      (\<forall>v. json_body r = Some v \<longrightarrow> fst (handleResponse r s) = Inr v))"
proof (intro conjI impI allI)
  assume "http_status r = 401"
  then show "handleResponse r s
        = (Inl (Error (JStr ''Authentication failed. Please login again.'')),
           s(TOKEN_KEY := None))"
    by (rule handleResponse_401)
next
  assume "\<not> ok r \<and> http_status r \<noteq> 401"
  then show "snd (handleResponse r s) = s"
    by (simp add: handleResponse_storage)
next
  assume "\<not> ok r \<and> http_status r \<noteq> 401"
  then show "\<exists>e. fst (handleResponse r s) = Inl e"
    by (simp add: handleResponse_rejects)
next
  assume "\<not> ok r \<and> http_status r \<noteq> 401" "json_body r = None"
  then show "fst (handleResponse r s) = Inl (Error (JStr ''Network error''))"
    by (simp add: handleResponse_unparsed_error)
next
  fix v
  assume "\<not> ok r \<and> http_status r \<noteq> 401"
    "json_body r = Some v \<and> v \<noteq> JNull \<and> v \<noteq> JUndefined"
  then show "fst (handleResponse r s)
             = Inl (Error (js_or (read_prop v ''detail'')
                      (js_or (read_prop v ''message'') (JStr ''API request failed''))))"
    by (simp add: handleResponse_parsed_error)
next
  assume "ok r"
  then have "http_status r \<noteq> 401"
    by (auto simp add: ok_def)
  then show "snd (handleResponse r s) = s"
    by (rule handleResponse_storage)
next
  assume "ok r" "json_body r = None"
  then show "fst (handleResponse r s) = Inl SyntaxError"
    by (simp add: handleResponse_ok)
next
  fix v
  assume "ok r" "json_body r = Some v"
  then show "fst (handleResponse r s) = Inr v"
    by (simp add: handleResponse_ok)
qed

text \<open>
  The amended C10 at four responses, each on the storage that holds a token: the 401
  removes the token; the 422 is rejected with its detail, the 502 with "Network error",
  and the 200 returns its body, all three leaving the token in place.
\<close>

theorem handleResponse_cases_witness:
  "http_status resp_401 = 401 \<and>
   fst (handleResponse resp_401 logged_in)
     = Inl (Error (JStr ''Authentication failed. Please login again.'')) \<and>
   getToken (snd (handleResponse resp_401 logged_in)) = None \<and>
   \<not> ok resp_422 \<and> http_status resp_422 \<noteq> 401 \<and>
   handleResponse resp_422 logged_in = (Inl (Error (JStr ''Session not found'')), logged_in) \<and>
   \<not> ok resp_502 \<and> http_status resp_502 \<noteq> 401 \<and> json_body resp_502 = None \<and>
   handleResponse resp_502 logged_in = (Inl (Error (JStr ''Network error'')), logged_in) \<and>
   ok resp_200 \<and>
   handleResponse resp_200 logged_in = (Inr (JObj [(''status'', JStr ''healthy'')]), logged_in) \<and>
   getToken logged_in = Some ''tok''"
proof -
  have h401: "http_status resp_401 = 401"
    by (simp add: resp_401_def)
  have h422: "\<not> ok resp_422 \<and> http_status resp_422 \<noteq> 401"
    and b422: "json_body resp_422 = Some (JObj [(''detail'', JStr ''Session not found'')])"
    by (simp_all add: resp_422_def ok_def)
  have h502: "\<not> ok resp_502 \<and> http_status resp_502 \<noteq> 401" and b502: "json_body resp_502 = None"
    by (simp_all add: resp_502_def ok_def)
  have h200: "ok resp_200"
    and b200: "json_body resp_200 = Some (JObj [(''status'', JStr ''healthy'')])"
    by (simp_all add: resp_200_def ok_def)
  have r401: "handleResponse resp_401 logged_in
      = (Inl (Error (JStr ''Authentication failed. Please login again.'')),
         logged_in(TOKEN_KEY := None))"
    using handleResponse_cases [of resp_401 logged_in] h401 by simp
  have r422: "handleResponse resp_422 logged_in
      = (Inl (Error (JStr ''Session not found'')), logged_in)"
    using handleResponse_cases [of resp_422 logged_in] h422 b422
    by (simp add: prod_eq_iff js_or_def read_prop_def)
  have r502: "handleResponse resp_502 logged_in
      = (Inl (Error (JStr ''Network error'')), logged_in)"
    using handleResponse_cases [of resp_502 logged_in] h502 b502
    by (simp add: prod_eq_iff)
  have r200: "handleResponse resp_200 logged_in
      = (Inr (JObj [(''status'', JStr ''healthy'')]), logged_in)"
    using handleResponse_cases [of resp_200 logged_in] h200 b200
    by (simp add: prod_eq_iff)
  have tok: "getToken logged_in = Some ''tok''"
    by (simp add: getToken_def TOKEN_KEY_def logged_in_def)
  from h401 h422 h502 b502 h200 r401 r422 r502 r200 tok show ?thesis
    by (simp add: getToken_def)
qed

section \<open>Properties of the triage, the review queue and the dispatch\<close>









lemma find_update_first:
  "find P xs = Some x \<Longrightarrow> P (f x) \<Longrightarrow> find P (update_first P f xs) = Some (f x)"
  by (induction xs) (auto split: if_splits)

lemma resolve_Inr_iff:
  "resolve i s n t entries = (Inr e1, entries1) \<longleftrightarrow>
   (\<exists>e0. find (\<lambda>e. review_id e = i) entries = Some e0 \<and> review_status e0 = ReviewPending \<and>
         e1 = e0\<lparr>review_status := ReviewResolved, manual_score := Some s,
                  reviewer_notes := n, resolved_at := Some t\<rparr> \<and>
         entries1 = update_first (\<lambda>e. review_id e = i)
                      (\<lambda>e. e\<lparr>review_status := ReviewResolved, manual_score := Some s,
                               reviewer_notes := n, resolved_at := Some t\<rparr>) entries)"
proof (cases "find (\<lambda>e. review_id e = i) entries")
  case None
  then show ?thesis by (simp add: resolve_def)
next
  case (Some e0)
  show ?thesis
  proof (cases "review_status e0")
    case ReviewPending
    with Some show ?thesis by (auto simp add: resolve_def Let_def)
  next
    case ReviewResolved
    with Some show ?thesis by (simp add: resolve_def)
  qed
qed

text \<open>
  C7: when a first \<open>resolve\<close> of an entry has succeeded, a second \<open>resolve\<close> of the same
  entry, with whatever score and notes, fails with the conflict error and leaves the
  queue as it is; the stored entry is the one the first call returned, its manual score
  is the first call's, and its original score is the automated score it had before any
  resolution.
\<close>

theorem first_resolution_stands:
  assumes "resolve i s1 n1 t1 entries = (Inr e1, entries1)"
  shows "resolve i s2 n2 t2 entries1 = (Inl ReviewConflictError, entries1) \<and>
         find (\<lambda>e. review_id e = i) entries1 = Some e1 \<and>
         manual_score e1 = Some s1 \<and>
         map_option original_score (find (\<lambda>e. review_id e = i) entries)
           = Some (original_score e1)"
proof -
  let ?upd = "\<lambda>e. e\<lparr>review_status := ReviewResolved, manual_score := Some s1,
                     reviewer_notes := n1, resolved_at := Some t1\<rparr>"
  from assms obtain e0 where e0: "find (\<lambda>e. review_id e = i) entries = Some e0"
    and e1: "e1 = ?upd e0"
    and entries1: "entries1 = update_first (\<lambda>e. review_id e = i) ?upd entries"
    unfolding resolve_Inr_iff by blast
  have "review_id e0 = i"
    using e0 by (auto simp add: find_Some_iff)
  then have "review_id (?upd e0) = i"
    by simp
  with e0 have stored: "find (\<lambda>e. review_id e = i) entries1 = Some e1"
    unfolding entries1 e1 by (rule find_update_first)
  have resolved: "review_status e1 = ReviewResolved"
    by (simp add: e1)
  from stored resolved
  have "resolve i s2 n2 t2 entries1 = (Inl ReviewConflictError, entries1)"
    by (simp add: resolve_def)
  moreover have "manual_score e1 = Some s1" and "original_score e1 = original_score e0"
    by (simp_all add: e1)
  ultimately show ?thesis
    using stored e0 by simp
qed

text \<open>
  C7 at the pending entry 7: resolved first with 52, then with 90. The first call
  succeeds; the second fails and the stored manual score is 52, beside the original 35.
\<close>

theorem first_resolution_stands_witness:
  "fst (resolve 7 52 ''regraded'' 20 [entry_pending]) \<noteq> Inl ReviewConflictError \<and>
   fst (resolve 7 52 ''regraded'' 20 [entry_pending]) \<noteq> Inl ReviewNotFound \<and>
   fst (resolve 7 90 ''again'' 30 (snd (resolve 7 52 ''regraded'' 20 [entry_pending])))
     = Inl ReviewConflictError \<and>
   snd (resolve 7 90 ''again'' 30 (snd (resolve 7 52 ''regraded'' 20 [entry_pending])))
     = snd (resolve 7 52 ''regraded'' 20 [entry_pending]) \<and>
   map (\<lambda>e. (original_score e, manual_score e)) (snd (resolve 7 52 ''regraded'' 20 [entry_pending]))
     = [(35, Some 52)]"
proof -
  define e1 where "e1 = entry_pending\<lparr>review_status := ReviewResolved, manual_score := Some 52,
      reviewer_notes := ''regraded'', resolved_at := Some 20\<rparr>"
  have first: "resolve 7 52 ''regraded'' 20 [entry_pending] = (Inr e1, [e1])"
    by (simp add: resolve_def e1_def entry_pending_def)
  from first_resolution_stands [OF first, of 90 "''again''" 30]
  have second: "resolve 7 90 ''again'' 30 [e1] = (Inl ReviewConflictError, [e1])"
    and m: "manual_score e1 = Some 52"
    by simp_all
  have o: "original_score e1 = 35"
    by (simp add: e1_def entry_pending_def)
  from first second m o show ?thesis
    by simp
qed

lemma dispatch_small:
  "length batch \<le> T \<Longrightarrow>
   dispatch T pipeline batch queue = (map (\<lambda>f. Terminal (pipeline f)) batch, queue)"
  by (simp add: dispatch_def)

lemma dispatch_large:
  "T < length batch \<Longrightarrow>
   dispatch T pipeline batch queue
     = (map TaskHandle [length queue ..< length queue + length batch], queue @ batch)"
  by (simp add: dispatch_def)

text \<open>
  C6: with the threshold 5, a batch of at most five files is run within the call: the
  response has one terminal result per file, in order, each the result of that file's
  own pipeline run (so a failure of one file changes no other file's result), and
  nothing is queued. A batch of more than five files gets no terminal result: the
  response has exactly one task handle per file, the handles are pairwise different,
  and each names the place of its file in the work queue.
\<close>

theorem dispatch_by_threshold:
  "(length batch \<le> 5 \<longrightarrow>
      length (fst (dispatch REAL_TIME_THRESHOLD pipeline batch queue)) = length batch \<and>
      (\<forall>i<length batch.
         fst (dispatch REAL_TIME_THRESHOLD pipeline batch queue) ! i
           = Terminal (pipeline (batch ! i))) \<and>
      snd (dispatch REAL_TIME_THRESHOLD pipeline batch queue) = queue) \<and>
   (length batch > 5 \<longrightarrow>
      length (fst (dispatch REAL_TIME_THRESHOLD pipeline batch queue)) = length batch \<and>
      (\<forall>i<length batch.
         fst (dispatch REAL_TIME_THRESHOLD pipeline batch queue) ! i
           = TaskHandle (length queue + i) \<and>
         snd (dispatch REAL_TIME_THRESHOLD pipeline batch queue) ! (length queue + i)
           = batch ! i) \<and>
      (\<forall>out\<in>set (fst (dispatch REAL_TIME_THRESHOLD pipeline batch queue)). \<not> is_terminal out) \<and>
      distinct (fst (dispatch REAL_TIME_THRESHOLD pipeline batch queue)))"
proof (intro conjI impI)
  assume "length batch \<le> 5"
  then have eq: "dispatch REAL_TIME_THRESHOLD pipeline batch queue
      = (map (\<lambda>f. Terminal (pipeline f)) batch, queue)"
    by (simp add: dispatch_small REAL_TIME_THRESHOLD_def)
  show "length (fst (dispatch REAL_TIME_THRESHOLD pipeline batch queue)) = length batch"
    and "\<forall>i<length batch.
         fst (dispatch REAL_TIME_THRESHOLD pipeline batch queue) ! i
           = Terminal (pipeline (batch ! i))"
    and "snd (dispatch REAL_TIME_THRESHOLD pipeline batch queue) = queue"
    by (simp_all add: eq)
next
  assume "length batch > 5"
  then have eq: "dispatch REAL_TIME_THRESHOLD pipeline batch queue
      = (map TaskHandle [length queue ..< length queue + length batch], queue @ batch)"
    by (simp add: dispatch_large REAL_TIME_THRESHOLD_def)
  show "length (fst (dispatch REAL_TIME_THRESHOLD pipeline batch queue)) = length batch"
    by (simp add: eq)
  show "\<forall>i<length batch.
         fst (dispatch REAL_TIME_THRESHOLD pipeline batch queue) ! i
           = TaskHandle (length queue + i) \<and>
         snd (dispatch REAL_TIME_THRESHOLD pipeline batch queue) ! (length queue + i)
           = batch ! i"
    by (simp add: eq nth_append)
  show "\<forall>out\<in>set (fst (dispatch REAL_TIME_THRESHOLD pipeline batch queue)). \<not> is_terminal out"
    by (auto simp add: eq)
  show "distinct (fst (dispatch REAL_TIME_THRESHOLD pipeline batch queue))"
    by (simp add: eq distinct_map inj_on_def)
qed

text \<open>
  C6 at a batch of three files whose second file fails, and at a batch of six files on
  an empty queue.
\<close>

theorem dispatch_by_threshold_witness:
  "length small_batch \<le> 5 \<and>
   fst (dispatch REAL_TIME_THRESHOLD example_pipeline small_batch [])
     = [Terminal (Inr 5), Terminal (Inl ''OCR failed''), Terminal (Inr 5)] \<and>
   length large_batch > 5 \<and>
   fst (dispatch REAL_TIME_THRESHOLD example_pipeline large_batch [])
     = [TaskHandle 0, TaskHandle 1, TaskHandle 2, TaskHandle 3, TaskHandle 4, TaskHandle 5] \<and>
   snd (dispatch REAL_TIME_THRESHOLD example_pipeline large_batch []) = large_batch"
proof -
  let ?small = "fst (dispatch REAL_TIME_THRESHOLD example_pipeline small_batch [])"
  let ?large = "fst (dispatch REAL_TIME_THRESHOLD example_pipeline large_batch [])"
  have s: "length small_batch \<le> 5" and l: "length large_batch > 5"
    by (simp_all add: small_batch_def large_batch_def)
  have ls: "length small_batch = 3" and ll: "length large_batch = 6"
    by (simp_all add: small_batch_def large_batch_def)
  have small: "length ?small = length small_batch \<and>
      (\<forall>i<length small_batch. ?small ! i = Terminal (example_pipeline (small_batch ! i))) \<and>
      snd (dispatch REAL_TIME_THRESHOLD example_pipeline small_batch []) = []"
    using s by (rule dispatch_by_threshold [THEN conjunct1, THEN mp])
  have large: "length ?large = length large_batch \<and>
      (\<forall>i<length large_batch. ?large ! i = TaskHandle (length [] + i) \<and>
         snd (dispatch REAL_TIME_THRESHOLD example_pipeline large_batch []) ! (length [] + i)
           = large_batch ! i) \<and>
      (\<forall>out\<in>set ?large. \<not> is_terminal out) \<and> distinct ?large"
    using l dispatch_by_threshold [of large_batch example_pipeline "[]", THEN conjunct2]
    by simp
  have "?small = map (\<lambda>f. Terminal (example_pipeline f)) small_batch"
    using small by (intro nth_equalityI) simp_all
  also have "\<dots> = [Terminal (Inr 5), Terminal (Inl ''OCR failed''), Terminal (Inr 5)]"
    by (simp add: small_batch_def example_pipeline_def)
  finally have a: "?small = [Terminal (Inr 5), Terminal (Inl ''OCR failed''), Terminal (Inr 5)]" .
  have "?large = map TaskHandle [0 ..< 6]"
    using large ll by (intro nth_equalityI) simp_all
  also have "[0 ..< 6] = [0, 1, 2, 3, 4, 5 :: nat]"
    by code_simp
  finally have b: "?large
      = [TaskHandle 0, TaskHandle 1, TaskHandle 2, TaskHandle 3, TaskHandle 4, TaskHandle 5]"
    by simp
  have c: "snd (dispatch REAL_TIME_THRESHOLD example_pipeline large_batch []) = large_batch"
    using l by (simp add: dispatch_large REAL_TIME_THRESHOLD_def)
  show ?thesis
    by (rule conjI [OF s conjI [OF a conjI [OF l conjI [OF b c]]]])
qed

end
